theory Spec2Isabelle
  imports Main "HOL-Library.Sublist"
begin

section \<open>The OpenNeuro MCP server: data model\<close>

text \<open>
  The repository is one TypeScript file, \<^verbatim>\<open>src/index.ts\<close>: a class \<^verbatim>\<open>OpenNeuroMCP\<close> whose
  \<^verbatim>\<open>init\<close> registers one tool, the private method \<^verbatim>\<open>executeOpenNeuroGraphQLQuery\<close>
  (the relay), and the worker's \<^verbatim>\<open>fetch\<close> handler, which routes inbound requests.

  A JavaScript string is a list of code units, written here as a HOL \<open>string\<close>;
  \<^verbatim>\<open>s.slice(0, n)\<close> is \<open>take n s\<close>. A JSON value is a datatype; an object is the list of
  its properties in enumeration order. The relay never computes with the numbers of
  a body, it only carries them, and the one number it creates is a status code. A
  finite number is carried as an integer (\<open>JNum\<close>); the rounding of JavaScript's doubles,
  fractions and negative zero are not modelled. \<open>JInfinity\<close> and \<open>JNegInfinity\<close> are
  the two infinite numbers, which \<^verbatim>\<open>JSON.parse\<close> returns for a literal beyond the range
  of a double, such as \<^verbatim>\<open>1e400\<close>.
\<close>

datatype json =
    JNull
  | JBool bool
  | JNum int
  | JStr string
  | JArr "json list"
  | JObj "(string \<times> json) list"
  | JInfinity
  | JNegInfinity

text \<open>
  A thrown JavaScript value, as the \<^verbatim>\<open>catch\<close> clause of the relay tells them apart:
  an instance of \<^verbatim>\<open>Error\<close> with its \<^verbatim>\<open>message\<close>, or any other value with the string
  \<^verbatim>\<open>String(value)\<close> gives for it.
\<close>

datatype thrown =
    Error_instance string
  | Non_error string

text \<open>The argument of the outbound \<^verbatim>\<open>fetch(url, { method, headers, body })\<close>.\<close>

record request =
  url :: string
  http_method :: string
  headers :: "(string \<times> string) list"
  body :: string

text \<open>
  What the relay observes of the \<^verbatim>\<open>Response\<close> it gets: \<^verbatim>\<open>response.status\<close>, what awaiting
  \<^verbatim>\<open>response.json()\<close> yields (the parsed body, or the value it rejects with), and what
  awaiting \<^verbatim>\<open>response.text()\<close> yields when it is called after \<^verbatim>\<open>response.json()\<close> has
  rejected, the only place where the relay calls it.
\<close>

record response =
  status :: nat
  json_outcome :: "thrown + json"
  text_outcome :: "thrown + string"

text \<open>
  \<^verbatim>\<open>response.ok\<close> is a getter of the runtime, not of the repository. The Fetch standard
  defines it: true when the status is in the range 200 to 299.
\<close>

definition ok :: "response \<Rightarrow> bool" where
  "ok r = (200 \<le> status r \<and> status r \<le> 299)"

text \<open>
  The network is a parameter: \<open>net n req\<close> is the outcome of the \<open>n\<close>-th outbound call
  of the process when it sends \<open>req\<close>, either the value \<^verbatim>\<open>fetch\<close> rejects with or the
  response. The state of the outside world that the relay changes is the list of the
  requests sent so far; \<^verbatim>\<open>fetch\<close> appends one request to it and returns the outcome.
\<close>

type_synonym network = "nat \<Rightarrow> request \<Rightarrow> thrown + response"

definition outbound_fetch ::
  "network \<Rightarrow> request list \<Rightarrow> request \<Rightarrow> (thrown + response) \<times> request list" where
  "outbound_fetch net sent req = (net (length sent) req, sent @ [req])"

text \<open>
  The template literal \<^verbatim>\<open>${response.status}\<close> converts the status, an unsigned integer,
  to its decimal digits.
\<close>

fun Number_toString :: "nat \<Rightarrow> string" where
  "Number_toString n =
     (if n < 10 then [''0123456789'' ! n]
      else Number_toString (n div 10) @ [''0123456789'' ! (n mod 10)])"

declare Number_toString.simps [simp del]

section \<open>The relay\<close>

definition OPENNEURO_GRAPHQL_ENDPOINT :: string where
  "OPENNEURO_GRAPHQL_ENDPOINT = ''https://openneuro.org/crn/graphql''"

text \<open>
  Lines 62 to 80: the headers, \<^verbatim>\<open>bodyData\<close> with the \<^verbatim>\<open>variables\<close> property added only
  when \<^verbatim>\<open>variables\<close> is given (every object is truthy, \<^verbatim>\<open>undefined\<close> is not), and the
  argument of \<^verbatim>\<open>fetch\<close>. \<open>stringify space v\<close> is the runtime's
  \<^verbatim>\<open>JSON.stringify(v, null, space)\<close>, and \<^verbatim>\<open>JSON.stringify(v)\<close> is \<open>stringify 0 v\<close>.
\<close>

definition outbound_request ::
  "(nat \<Rightarrow> json \<Rightarrow> string) \<Rightarrow> string \<Rightarrow> (string \<times> json) list option \<Rightarrow> request" where
  "outbound_request stringify query variables =
     (let hdrs = [(''Content-Type'', ''application/json''),
                  (''User-Agent'',
                   ''MCPOpenNeuroServer/0.1.0 (ModelContextProtocol; +https://modelcontextprotocol.io)'')];
          bodyData = [(''query'', JStr query)];
          bodyData = (case variables of
                        None \<Rightarrow> bodyData
                      | Some vs \<Rightarrow> bodyData @ [(''variables'', JObj vs)])
      in \<lparr>url = OPENNEURO_GRAPHQL_ENDPOINT, http_method = ''POST'', headers = hdrs,
          body = stringify 0 (JObj bodyData)\<rparr>)"

text \<open>
  The body of the \<^verbatim>\<open>try\<close> block of \<^verbatim>\<open>executeOpenNeuroGraphQLQuery\<close>, lines 62 to 114.
  \<open>Inl\<close> is a value thrown inside the block, \<open>Inr\<close> the value a \<^verbatim>\<open>return\<close> gives.
  The \<^verbatim>\<open>console.error\<close> lines write to the diagnostic stream only and are left out.
\<close>

definition relay_try ::
  "(nat \<Rightarrow> json \<Rightarrow> string) \<Rightarrow> network \<Rightarrow> request list \<Rightarrow> string \<Rightarrow>
     (string \<times> json) list option \<Rightarrow> (thrown + json) \<times> request list" where
  "relay_try stringify net sent query variables =
     (let (outcome, sent') =
             outbound_fetch net sent (outbound_request stringify query variables)
      in case outcome of
           Inl error \<Rightarrow> (Inl error, sent')
         | Inr response \<Rightarrow>
             (case json_outcome response of
                Inl e \<Rightarrow>
                  (case text_outcome response of
                     Inl error \<Rightarrow> (Inl error, sent')
                   | Inr errorText \<Rightarrow>
                       (Inr (JObj [(''errors'', JArr [JObj
                          [(''message'', JStr (''OpenNeuro API Error '' @
                              Number_toString (status response) @ '': Non-JSON response.'')),
                           (''extensions'', JObj
                              [(''statusCode'', JNum (int (status response))),
                               (''responseText'', JStr (take 1000 errorText))])]])]),
                        sent'))
              | Inr responseBody \<Rightarrow>
                  if \<not> ok response then
                    (Inr (JObj [(''errors'', JArr [JObj
                       [(''message'', JStr (''OpenNeuro API HTTP Error '' @
                           Number_toString (status response))),
                        (''extensions'', JObj
                           [(''statusCode'', JNum (int (status response))),
                            (''responseBody'', responseBody)])]])]),
                     sent')
                  else (Inr responseBody, sent')))"

text \<open>
  The \<^verbatim>\<open>catch\<close> clause, lines 116 to 132: the message is \<^verbatim>\<open>error.message\<close> for an
  instance of \<^verbatim>\<open>Error\<close> and \<^verbatim>\<open>String(error)\<close> for any other value. The string the
  variable \<^verbatim>\<open>errorMessage\<close> is initialised with is overwritten on both branches.
\<close>

fun errorMessage :: "thrown \<Rightarrow> string" where
  "errorMessage (Error_instance message) = message"
| "errorMessage (Non_error s) = s"

definition executeOpenNeuroGraphQLQuery ::
  "(nat \<Rightarrow> json \<Rightarrow> string) \<Rightarrow> network \<Rightarrow> request list \<Rightarrow> string \<Rightarrow>
     (string \<times> json) list option \<Rightarrow> (thrown + json) \<times> request list" where
  "executeOpenNeuroGraphQLQuery stringify net sent query variables =
     (case relay_try stringify net sent query variables of
        (Inl error, sent') \<Rightarrow>
          (Inr (JObj [(''errors'', JArr [JObj
             [(''message'', JStr (errorMessage error)),
              (''extensions'', JObj [(''clientError'', JBool True)])]])]),
           sent')
      | (Inr result, sent') \<Rightarrow> (Inr result, sent'))"

section \<open>The tool registrar\<close>

text \<open>
  The input schema of the tool is written with the zod library. Modelled from zod's
  documentation, for the validators \<^verbatim>\<open>init\<close> uses: \<^verbatim>\<open>z.string()\<close> accepts every
  string, \<^verbatim>\<open>z.any()\<close> accepts everything, \<^verbatim>\<open>z.record(v)\<close> accepts an object whose
  property values \<open>v\<close> accepts, and \<^verbatim>\<open>.optional()\<close> also accepts a missing property
  (\<open>None\<close>).
\<close>

datatype zod =
    ZString
  | ZAny
  | ZRecord zod
  | ZOptional zod

fun zod_accepts :: "zod \<Rightarrow> json option \<Rightarrow> bool" where
  "zod_accepts ZString (Some (JStr s)) = True"
| "zod_accepts ZString _ = False"
| "zod_accepts ZAny _ = True"
| "zod_accepts (ZRecord z) (Some (JObj kvs)) = list_all (\<lambda>kv. zod_accepts z (Some (snd kv))) kvs"
| "zod_accepts (ZRecord z) _ = False"
| "zod_accepts (ZOptional z) None = True"
| "zod_accepts (ZOptional z) (Some v) = zod_accepts z (Some v)"

text \<open>
  The arguments of a call are a JSON object; they pass the schema when every property
  the schema names is accepted by its validator.
\<close>

definition schema_accepts :: "(string \<times> zod) list \<Rightarrow> (string \<times> json) list \<Rightarrow> bool" where
  "schema_accepts shape args = list_all (\<lambda>kz. zod_accepts (snd kz) (map_of args (fst kz))) shape"

text \<open>The result of the tool: \<^verbatim>\<open>{ content: [{ type: "text", text: ... }] }\<close>.\<close>

record content_block =
  content_type :: string
  content_text :: string

record tool_result =
  content :: "content_block list"

text \<open>
  The callback \<^verbatim>\<open>init\<close> registers, lines 40 to 55. It awaits the relay, so a value the
  relay threw would be thrown by the callback too. Its two \<^verbatim>\<open>console.error\<close> lines are
  left out like those of the relay.
\<close>

definition tool_callback ::
  "(nat \<Rightarrow> json \<Rightarrow> string) \<Rightarrow> network \<Rightarrow> request list \<Rightarrow> string \<Rightarrow>
     (string \<times> json) list option \<Rightarrow> (thrown + tool_result) \<times> request list" where
  "tool_callback stringify net sent query variables =
     (case executeOpenNeuroGraphQLQuery stringify net sent query variables of
        (Inl error, sent') \<Rightarrow> (Inl error, sent')
      | (Inr result, sent') \<Rightarrow>
          (Inr \<lparr>content = [\<lparr>content_type = ''text'', content_text = stringify 2 result\<rparr>]\<rparr>,
           sent'))"

text \<open>
  \<^verbatim>\<open>this.server.tool(name, description, schema, callback)\<close> adds one tool to the server.
  The description is documentation for the caller and is left out of the record.
\<close>

record tool =
  tool_name :: string
  input_schema :: "(string \<times> zod) list"
  callback :: "(nat \<Rightarrow> json \<Rightarrow> string) \<Rightarrow> network \<Rightarrow> request list \<Rightarrow> string \<Rightarrow>
     (string \<times> json) list option \<Rightarrow> (thrown + tool_result) \<times> request list"

definition init :: "tool list \<Rightarrow> tool list" where
  "init server = server @
     [\<lparr>tool_name = ''openneuro_graphql_query'',
       input_schema = [(''query'', ZString), (''variables'', ZOptional (ZRecord ZAny))],
       callback = tool_callback\<rparr>]"

section \<open>The worker's fetch handler\<close>

text \<open>
  The handler reads \<^verbatim>\<open>new URL(request.url).pathname\<close> and either hands the request to
  \<^verbatim>\<open>OpenNeuroMCP.serveSSE("/sse")\<close>, which belongs to the MCP framework, or answers
  with \<^verbatim>\<open>new Response(body, { status, headers })\<close>.
\<close>

record http_response =
  response_body :: string
  response_status :: nat
  response_headers :: "(string \<times> string) list"

datatype worker_result =
    Served_by_SSE string
  | Responded http_response

definition fetch :: "string \<Rightarrow> worker_result" where
  "fetch pathname =
     (if pathname = ''/sse'' \<or> prefix ''/sse/'' pathname then Served_by_SSE ''/sse''
      else Responded
        \<lparr>response_body = ''OpenNeuro MCP Server - Path not found.\<newline>Available MCP paths:\<newline>- /sse (for Server-Sent Events transport)'',
         response_status = 404,
         response_headers = [(''Content-Type'', ''text/plain'')]\<rparr>)"

section \<open>A reference runtime\<close>

text \<open>
  \<^verbatim>\<open>JSON.stringify\<close> belongs to the runtime, and the definitions above take it as the
  parameter \<open>stringify\<close>. To evaluate them on concrete inputs, \<open>JSON_stringify\<close> follows
  the algorithm of ECMA-262 (SerializeJSONProperty, with QuoteJSONString) on the values
  of \<open>json\<close>: \<open>gap\<close> is \<open>space\<close> blanks, at most ten, and \<open>ind\<close> the current indentation.
  A number that is not finite is written \<^verbatim>\<open>null\<close>.
\<close>

definition QuoteJSONChar :: "char \<Rightarrow> string" where
  "QuoteJSONChar c =
     (if c = CHR 0x22 then [CHR 0x5C, CHR 0x22]
      else if c = CHR 0x5C then [CHR 0x5C, CHR 0x5C]
      else if c = CHR 0x08 then [CHR 0x5C, CHR ''b'']
      else if c = CHR 0x09 then [CHR 0x5C, CHR ''t'']
      else if c = CHR 0x0A then [CHR 0x5C, CHR ''n'']
      else if c = CHR 0x0C then [CHR 0x5C, CHR ''f'']
      else if c = CHR 0x0D then [CHR 0x5C, CHR ''r'']
      else if (of_char c :: nat) < 32 then
        [CHR 0x5C, CHR ''u'', CHR ''0'', CHR ''0'',
         ''0123456789abcdef'' ! (of_char c div 16), ''0123456789abcdef'' ! (of_char c mod 16)]
      else [c])"

definition QuoteJSONString :: "string \<Rightarrow> string" where
  "QuoteJSONString s = [CHR 0x22] @ concat (map QuoteJSONChar s) @ [CHR 0x22]"

fun join :: "string \<Rightarrow> string list \<Rightarrow> string" where
  "join sep [] = []"
| "join sep [x] = x"
| "join sep (x # y # ys) = x @ sep @ join sep (y # ys)"

primrec SerializeJSONProperty :: "json \<Rightarrow> string \<Rightarrow> string \<Rightarrow> string" where
  "SerializeJSONProperty JNull gap ind = ''null''"
| "SerializeJSONProperty (JBool b) gap ind = (if b then ''true'' else ''false'')"
| "SerializeJSONProperty (JNum i) gap ind =
     (if i < 0 then ''-'' @ Number_toString (nat (- i)) else Number_toString (nat i))"
| "SerializeJSONProperty (JStr s) gap ind = QuoteJSONString s"
| "SerializeJSONProperty (JArr xs) gap ind =
     (let parts = map (\<lambda>x. SerializeJSONProperty x gap (ind @ gap)) xs in
      if parts = [] then ''[]''
      else if gap = [] then ''['' @ join '','' parts @ '']''
      else ''[\<newline>'' @ ind @ gap @ join ('',\<newline>'' @ ind @ gap) parts @ ''\<newline>'' @ ind @ '']'')"
| "SerializeJSONProperty (JObj kvs) gap ind =
     (let parts = map (\<lambda>kv. QuoteJSONString (fst kv) @ (if gap = [] then '':'' else '': '') @ snd kv)
                    (map (map_prod id (\<lambda>v. SerializeJSONProperty v gap (ind @ gap))) kvs) in
      if parts = [] then ''{}''
      else if gap = [] then ''{'' @ join '','' parts @ ''}''
      else ''{\<newline>'' @ ind @ gap @ join ('',\<newline>'' @ ind @ gap) parts @ ''\<newline>'' @ ind @ ''}'')"
| "SerializeJSONProperty JInfinity gap ind = ''null''"
| "SerializeJSONProperty JNegInfinity gap ind = ''null''"

definition JSON_stringify :: "nat \<Rightarrow> json \<Rightarrow> string" where
  "JSON_stringify space v = SerializeJSONProperty v (replicate (min 10 space) CHR '' '') []"

text \<open>
  \<^verbatim>\<open>JSON.parse\<close>, following the grammar of ECMA-404: white space, the escapes of a
  string, the literals, numbers, arrays and objects. Two limits come from the types of
  this theory: a finite number that is not an integer, and a four-digit hexadecimal
  escape of a code unit above 255, are not read (the result is \<open>None\<close>, as for a text
  that is not JSON).
  The recursion is bounded by fuel, which \<open>JSON_parse\<close> takes from the length of the
  text.
\<close>

definition is_ws :: "char \<Rightarrow> bool" where
  "is_ws c = (c = CHR 0x20 \<or> c = CHR 0x09 \<or> c = CHR 0x0A \<or> c = CHR 0x0D)"

definition skip_ws :: "string \<Rightarrow> string" where
  "skip_ws s = dropWhile is_ws s"

definition is_digit :: "char \<Rightarrow> bool" where
  "is_digit c = (48 \<le> (of_char c :: nat) \<and> (of_char c :: nat) \<le> 57)"

definition digits_value :: "string \<Rightarrow> int" where
  "digits_value ds = foldl (\<lambda>a c. 10 * a + (of_char c - 48)) 0 ds"

definition hex_value :: "char \<Rightarrow> nat option" where
  "hex_value c =
     (let n = (of_char c :: nat) in
      if 48 \<le> n \<and> n \<le> 57 then Some (n - 48)
      else if 97 \<le> n \<and> n \<le> 102 then Some (n - 87)
      else if 65 \<le> n \<and> n \<le> 70 then Some (n - 55)
      else None)"

definition unescape :: "char \<Rightarrow> char option" where
  "unescape e =
     (if e = CHR 0x22 then Some (CHR 0x22)
      else if e = CHR 0x5C then Some (CHR 0x5C)
      else if e = CHR ''/'' then Some (CHR ''/'')
      else if e = CHR ''b'' then Some (CHR 0x08)
      else if e = CHR ''f'' then Some (CHR 0x0C)
      else if e = CHR ''n'' then Some (CHR 0x0A)
      else if e = CHR ''r'' then Some (CHR 0x0D)
      else if e = CHR ''t'' then Some (CHR 0x09)
      else None)"

fun parse_chars :: "string \<Rightarrow> (string \<times> string) option" where
  "parse_chars [] = None"
| "parse_chars (c # cs) =
     (if c = CHR 0x22 then Some ([], cs)
      else if c = CHR 0x5C then
        (case cs of
           [] \<Rightarrow> None
         | e # r \<Rightarrow>
             if e = CHR ''u'' then
               (case r of
                  h1 # h2 # h3 # h4 # r' \<Rightarrow>
                    (case (hex_value h1, hex_value h2, hex_value h3, hex_value h4) of
                       (Some a, Some b, Some c', Some d) \<Rightarrow>
                         if a = 0 \<and> b = 0 then
                           map_option (\<lambda>p. (char_of (16 * c' + d) # fst p, snd p)) (parse_chars r')
                         else None
                     | _ \<Rightarrow> None)
                | _ \<Rightarrow> None)
             else
               (case unescape e of
                  None \<Rightarrow> None
                | Some ch \<Rightarrow> map_option (\<lambda>p. (ch # fst p, snd p)) (parse_chars r)))
      else if (of_char c :: nat) < 32 then None
      else map_option (\<lambda>p. (c # fst p, snd p)) (parse_chars cs))"

text \<open>
  A number literal \<^verbatim>\<open>-? digits (. digits)? ((e|E) (+|-)? digits)?\<close> denotes the decimal
  \<open>m\<close> times ten to the \<open>k\<close>. \<^verbatim>\<open>JSON.parse\<close> rounds it to the nearest double, so a
  decimal at or above \<open>2 ^ 1024 - 2 ^ 970\<close>, halfway between the largest double and
  \<open>2 ^ 1024\<close>, becomes an infinite number. Below that, an integer is carried as it is
  written and a decimal that is not an integer is not read.
\<close>

definition overflow_threshold :: int where
  "overflow_threshold = 2 ^ 1024 - 2 ^ 970"

definition Number_of_decimal :: "bool \<Rightarrow> int \<Rightarrow> int \<Rightarrow> json option" where
  "Number_of_decimal negative m k =
     (if 0 \<le> k then
        (if overflow_threshold \<le> m * 10 ^ nat k
         then Some (if negative then JNegInfinity else JInfinity)
         else Some (JNum (if negative then - (m * 10 ^ nat k) else m * 10 ^ nat k)))
      else
        (if overflow_threshold * 10 ^ nat (- k) \<le> m
         then Some (if negative then JNegInfinity else JInfinity)
         else if m mod 10 ^ nat (- k) = 0
         then Some (JNum (if negative then - (m div 10 ^ nat (- k)) else m div 10 ^ nat (- k)))
         else None))"

definition parse_number :: "string \<Rightarrow> (json \<times> string) option" where
  "parse_number s =
     (let negative = (take 1 s = ''-'');
          s1 = (if negative then drop 1 s else s);
          ds = takeWhile is_digit s1;
          r1 = dropWhile is_digit s1;
          fraction = (take 1 r1 = ''.'');
          fs = (if fraction then takeWhile is_digit (drop 1 r1) else []);
          r2 = (if fraction then dropWhile is_digit (drop 1 r1) else r1);
          exponent = (take 1 r2 = ''e'' \<or> take 1 r2 = ''E'');
          r3 = (if exponent then drop 1 r2 else r2);
          signed = (exponent \<and> (take 1 r3 = ''-'' \<or> take 1 r3 = ''+''));
          r4 = (if signed then drop 1 r3 else r3);
          es = (if exponent then takeWhile is_digit r4 else []);
          rest = (if exponent then dropWhile is_digit r4 else r2);
          e = (if signed \<and> take 1 r3 = ''-'' then - digits_value es else digits_value es)
      in if ds = [] \<or> (1 < length ds \<and> take 1 ds = ''0'') \<or> (fraction \<and> fs = []) \<or>
            (exponent \<and> es = [])
         then None
         else map_option (\<lambda>v. (v, rest))
                (Number_of_decimal negative (digits_value (ds @ fs)) (e - int (length fs))))"

text \<open>
  An object lists its properties as JavaScript enumerates them: the keys that are
  array indices first, in ascending order, then the other keys in the order of their
  creation; a key that is defined again keeps its place and takes the new value.
\<close>

definition array_index :: "string \<Rightarrow> int option" where
  "array_index k =
     (if k \<noteq> [] \<and> list_all is_digit k \<and> (k = ''0'' \<or> take 1 k \<noteq> ''0'') \<and>
         length k \<le> 10 \<and> digits_value k < 4294967295
      then Some (digits_value k) else None)"

definition enumerated_before :: "string \<Rightarrow> string \<Rightarrow> bool" where
  "enumerated_before k k' =
     (case array_index k of
        None \<Rightarrow> False
      | Some i \<Rightarrow> (case array_index k' of None \<Rightarrow> True | Some j \<Rightarrow> i < j))"

fun CreateDataProperty :: "(string \<times> json) list \<Rightarrow> string \<Rightarrow> json \<Rightarrow> (string \<times> json) list" where
  "CreateDataProperty [] k v = [(k, v)]"
| "CreateDataProperty (p # ps) k v =
     (if fst p = k then (k, v) # ps
      else if enumerated_before k (fst p) then (k, v) # p # ps
      else p # CreateDataProperty ps k v)"

fun parse_value :: "nat \<Rightarrow> string \<Rightarrow> (json \<times> string) option"
  and parse_elements :: "nat \<Rightarrow> json list \<Rightarrow> string \<Rightarrow> (json \<times> string) option"
  and parse_members :: "nat \<Rightarrow> (string \<times> json) list \<Rightarrow> string \<Rightarrow> (json \<times> string) option"
  where
  "parse_value 0 s = None"
| "parse_value (Suc n) s =
     (case skip_ws s of
        [] \<Rightarrow> None
      | c # cs \<Rightarrow>
          if c = CHR ''{'' then
            (if take 1 (skip_ws cs) = ''}'' then Some (JObj [], drop 1 (skip_ws cs))
             else parse_members n [] cs)
          else if c = CHR ''['' then
            (if take 1 (skip_ws cs) = '']'' then Some (JArr [], drop 1 (skip_ws cs))
             else parse_elements n [] cs)
          else if c = CHR 0x22 then map_option (\<lambda>p. (JStr (fst p), snd p)) (parse_chars cs)
          else if take 4 (c # cs) = ''null'' then Some (JNull, drop 4 (c # cs))
          else if take 4 (c # cs) = ''true'' then Some (JBool True, drop 4 (c # cs))
          else if take 5 (c # cs) = ''false'' then Some (JBool False, drop 5 (c # cs))
          else parse_number (c # cs))"
| "parse_elements 0 acc s = None"
| "parse_elements (Suc n) acc s =
     (case parse_value n s of
        None \<Rightarrow> None
      | Some (v, r) \<Rightarrow>
          if take 1 (skip_ws r) = '','' then parse_elements n (acc @ [v]) (drop 1 (skip_ws r))
          else if take 1 (skip_ws r) = '']'' then Some (JArr (acc @ [v]), drop 1 (skip_ws r))
          else None)"
| "parse_members 0 acc s = None"
| "parse_members (Suc n) acc s =
     (if take 1 (skip_ws s) = [CHR 0x22] then
        (case parse_chars (drop 1 (skip_ws s)) of
           None \<Rightarrow> None
         | Some (k, r1) \<Rightarrow>
             if take 1 (skip_ws r1) = '':'' then
               (case parse_value n (drop 1 (skip_ws r1)) of
                  None \<Rightarrow> None
                | Some (v, r3) \<Rightarrow>
                    if take 1 (skip_ws r3) = '','' then
                      parse_members n (CreateDataProperty acc k v) (drop 1 (skip_ws r3))
                    else if take 1 (skip_ws r3) = ''}'' then
                      Some (JObj (CreateDataProperty acc k v), drop 1 (skip_ws r3))
                    else None)
             else None)
      else None)"

definition JSON_parse :: "string \<Rightarrow> json option" where
  "JSON_parse s =
     (case parse_value (2 * length s + 2) s of
        None \<Rightarrow> None
      | Some (v, rest) \<Rightarrow> if skip_ws rest = [] then Some v else None)"

text \<open>
  What \<open>JSON_parse\<close> makes of a value that went through \<open>JSON_stringify\<close>: the same
  value, with the properties of each object in the order in which JavaScript enumerates
  them (a value that comes from \<^verbatim>\<open>JSON.parse\<close> is in that order already), and with
  \<^verbatim>\<open>null\<close> in the place of a number that is not finite.
\<close>

primrec as_parsed :: "json \<Rightarrow> json" where
  "as_parsed JNull = JNull"
| "as_parsed (JBool b) = JBool b"
| "as_parsed (JNum i) =
     (if overflow_threshold \<le> i then JInfinity
      else if i \<le> - overflow_threshold then JNegInfinity
      else JNum i)"
| "as_parsed (JStr s) = JStr s"
| "as_parsed (JArr xs) = JArr (map as_parsed xs)"
| "as_parsed (JObj kvs) =
     JObj (foldl (\<lambda>a kv. CreateDataProperty a (fst kv) (snd kv)) []
       (map (map_prod id as_parsed) kvs))"
| "as_parsed JInfinity = JNull"
| "as_parsed JNegInfinity = JNull"

text \<open>
  What \<^verbatim>\<open>JSON.stringify\<close> and \<^verbatim>\<open>JSON.parse\<close> make of a value that \<^verbatim>\<open>JSON.parse\<close>
  returned: the same value, with \<^verbatim>\<open>null\<close> in the place of each number that is not
  finite.
\<close>

primrec infinity_as_null :: "json \<Rightarrow> json" where
  "infinity_as_null JNull = JNull"
| "infinity_as_null (JBool b) = JBool b"
| "infinity_as_null (JNum i) = JNum i"
| "infinity_as_null (JStr s) = JStr s"
| "infinity_as_null (JArr xs) = JArr (map infinity_as_null xs)"
| "infinity_as_null (JObj kvs) = JObj (map (map_prod id infinity_as_null) kvs)"
| "infinity_as_null JInfinity = JNull"
| "infinity_as_null JNegInfinity = JNull"

text \<open>
  The properties of an object are in enumeration order when no key occurs twice and no
  key stands after one it is enumerated before.
\<close>

definition enumeration_order :: "(string \<times> json) list \<Rightarrow> bool" where
  "enumeration_order kvs =
     sorted_wrt (\<lambda>p q. fst p \<noteq> fst q \<and> \<not> enumerated_before (fst q) (fst p)) kvs"

text \<open>
  Two predicates for the proof that the parser reads the serialiser back: the text
  after a serialised value starts with a comma, a closing bracket or white space, or is
  empty; the text of a value starts with none of these.
\<close>

definition delimited :: "string \<Rightarrow> bool" where
  "delimited rest =
     (case rest of [] \<Rightarrow> True
      | c # cs \<Rightarrow> c = CHR '','' \<or> c = CHR '']'' \<or> c = CHR ''}'' \<or> is_ws c)"

definition value_start :: "string \<Rightarrow> bool" where
  "value_start s =
     (case s of [] \<Rightarrow> False
      | c # cs \<Rightarrow> \<not> is_ws c \<and> c \<noteq> CHR '']'' \<and> c \<noteq> CHR ''}'' \<and> c \<noteq> CHR '','')"

text \<open>
  Modelled from the Fetch standard, which the runtime implements, not the repository: a
  \<^verbatim>\<open>Response\<close> with status \<open>st\<close> and body \<open>raw\<close> (\<open>None\<close> is the null body). \<^verbatim>\<open>json()\<close>
  reads the body and parses it, rejecting with a \<^verbatim>\<open>SyntaxError\<close> when it is not JSON. A
  body can be read once: after \<^verbatim>\<open>json()\<close>, \<^verbatim>\<open>text()\<close> rejects with a \<^verbatim>\<open>TypeError\<close>, unless the
  body is null, which reads as the empty string every time. The messages of the two
  errors are the runtime's own.
\<close>

definition Fetch_Response :: "nat \<Rightarrow> string option \<Rightarrow> response" where
  "Fetch_Response st raw =
     \<lparr>status = st,
      json_outcome =
        (case JSON_parse (case raw of None \<Rightarrow> [] | Some b \<Rightarrow> b) of
           None \<Rightarrow> Inl (Error_instance ''Unexpected token in JSON'')
         | Some v \<Rightarrow> Inr v),
      text_outcome =
        (case raw of
           None \<Rightarrow> Inr []
         | Some b \<Rightarrow> Inl (Error_instance ''Body has already been used''))\<rparr>"

text \<open>A network that answers every call with the same outcome, for closed examples.\<close>

definition always :: "thrown + response \<Rightarrow> network" where
  "always outcome n req = outcome"

section \<open>What the relay returns, case by case\<close>

lemma relay_try_sent:
  "snd (relay_try stringify net sent query variables) =
     sent @ [outbound_request stringify query variables]"
  by (simp add: relay_try_def outbound_fetch_def split: sum.splits)

lemma execute_sent:
  "snd (executeOpenNeuroGraphQLQuery stringify net sent query variables) =
     sent @ [outbound_request stringify query variables]"
  using relay_try_sent [of stringify net sent query variables]
  by (cases "relay_try stringify net sent query variables")
     (auto simp: executeOpenNeuroGraphQLQuery_def split: sum.splits)

lemma execute_rejected:
  assumes "net (length sent) (outbound_request stringify query variables) = Inl error"
  shows "fst (executeOpenNeuroGraphQLQuery stringify net sent query variables) =
     Inr (JObj [(''errors'', JArr [JObj
        [(''message'', JStr (errorMessage error)),
         (''extensions'', JObj [(''clientError'', JBool True)])]])])"
  using assms
  by (simp add: executeOpenNeuroGraphQLQuery_def relay_try_def outbound_fetch_def)


lemma execute_http_error:
  assumes "net (length sent) (outbound_request stringify query variables) = Inr r"
    and "json_outcome r = Inr responseBody" and "\<not> ok r"
  shows "fst (executeOpenNeuroGraphQLQuery stringify net sent query variables) =
     Inr (JObj [(''errors'', JArr [JObj
        [(''message'', JStr (''OpenNeuro API HTTP Error '' @ Number_toString (status r))),
         (''extensions'', JObj
            [(''statusCode'', JNum (int (status r))), (''responseBody'', responseBody)])]])])"
  using assms
  by (simp add: executeOpenNeuroGraphQLQuery_def relay_try_def outbound_fetch_def)

lemma execute_non_json:
  assumes "net (length sent) (outbound_request stringify query variables) = Inr r"
    and "json_outcome r = Inl e" and "text_outcome r = Inr errorText"
  shows "fst (executeOpenNeuroGraphQLQuery stringify net sent query variables) =
     Inr (JObj [(''errors'', JArr [JObj
        [(''message'', JStr (''OpenNeuro API Error '' @ Number_toString (status r) @
            '': Non-JSON response.'')),
         (''extensions'', JObj
            [(''statusCode'', JNum (int (status r))),
             (''responseText'', JStr (take 1000 errorText))])]])])"
  using assms
  by (simp add: executeOpenNeuroGraphQLQuery_def relay_try_def outbound_fetch_def)

lemma execute_second_read_throws:
  assumes "net (length sent) (outbound_request stringify query variables) = Inr r"
    and "json_outcome r = Inl e" and "text_outcome r = Inl error"
  shows "fst (executeOpenNeuroGraphQLQuery stringify net sent query variables) =
     Inr (JObj [(''errors'', JArr [JObj
        [(''message'', JStr (errorMessage error)),
         (''extensions'', JObj [(''clientError'', JBool True)])]])])"
  using assms
  by (simp add: executeOpenNeuroGraphQLQuery_def relay_try_def outbound_fetch_def)

lemma execute_returns:
  "\<exists>result. executeOpenNeuroGraphQLQuery stringify net sent query variables =
     (Inr result, sent @ [outbound_request stringify query variables])"
  by (simp add: executeOpenNeuroGraphQLQuery_def relay_try_def outbound_fetch_def
      split: sum.splits)

lemma tool_callback_text:
  assumes "fst (executeOpenNeuroGraphQLQuery stringify net sent query variables) = Inr result"
  shows "fst (tool_callback stringify net sent query variables) =
     Inr \<lparr>content = [\<lparr>content_type = ''text'', content_text = stringify 2 result\<rparr>]\<rparr>"
  using assms
  by (cases "executeOpenNeuroGraphQLQuery stringify net sent query variables")
     (auto simp: tool_callback_def split: sum.splits)

lemma tool_callback_sent:
  "snd (tool_callback stringify net sent query variables) =
     sent @ [outbound_request stringify query variables]"
  using execute_sent [of stringify net sent query variables]
  by (cases "executeOpenNeuroGraphQLQuery stringify net sent query variables")
     (auto simp: tool_callback_def split: sum.splits)

section \<open>The reference parser reads the reference serialiser back\<close>

lemma hex_digit_value:
  "\<forall>n \<in> set [0..<16]. hex_value (''0123456789abcdef'' ! n) = Some n"
  by code_simp

lemma hex_value_nth:
  assumes "n < 16"
  shows "hex_value (''0123456789abcdef'' ! n) = Some n"
  using assms hex_digit_value by simp

lemma hex_value_zero: "hex_value CHR ''0'' = Some 0"
  by (simp add: hex_value_def)

lemma char_of_div_mod: "char_of (16 * ((of_char c :: nat) div 16) + of_char c mod 16) = c"
  by simp

lemma parse_chars_QuoteJSONChar:
  assumes "parse_chars X = Some (s, rest)"
  shows "parse_chars (QuoteJSONChar c @ X) = Some (c # s, rest)"
proof -
  have d: "(of_char c :: nat) div 16 < 16"
    by (simp add: less_mult_imp_div_less)
  have m: "(of_char c :: nat) mod 16 < 16" by simp
  show ?thesis
    using assms hex_value_nth [OF d] hex_value_nth [OF m] char_of_div_mod [of c]
    by (simp add: QuoteJSONChar_def unescape_def hex_value_zero del: char_of_div_mod)
qed

lemma parse_chars_quoted:
  "parse_chars (concat (map QuoteJSONChar s) @ CHR 0x22 # rest) = Some (s, rest)"
  by (induction s) (simp_all add: parse_chars_QuoteJSONChar)

lemma decimal_digit:
  "\<forall>n \<in> set [0..<10]. is_digit (''0123456789'' ! n) \<and>
      (of_char (''0123456789'' ! n) :: int) - 48 = int n \<and>
      (n = 0 \<or> ''0123456789'' ! n \<noteq> CHR ''0'')"
  by code_simp

lemma decimal_digit_nth:
  assumes "n < 10"
  shows "is_digit (''0123456789'' ! n)"
    and "(of_char (''0123456789'' ! n) :: int) - 48 = int n"
    and "0 < n \<Longrightarrow> ''0123456789'' ! n \<noteq> CHR ''0''"
  using assms decimal_digit by auto

lemma Number_toString_digits: "list_all is_digit (Number_toString n)"
proof (induction n rule: Number_toString.induct)
  case (1 n)
  show ?case
  proof (cases "n < 10")
    case True
    then show ?thesis
      by (subst Number_toString.simps) (simp add: decimal_digit_nth(1))
  next
    case False
    with 1 show ?thesis
      by (subst Number_toString.simps) (simp add: decimal_digit_nth(1))
  qed
qed

lemma Number_toString_nonempty: "Number_toString n \<noteq> []"
  by (subst Number_toString.simps) simp

lemma digits_value_snoc:
  "digits_value (ds @ [d]) = 10 * digits_value ds + (of_char d - 48)"
  by (simp add: digits_value_def)

lemma digits_value_Number_toString: "digits_value (Number_toString n) = int n"
proof (induction n rule: Number_toString.induct)
  case (1 n)
  show ?case
  proof (cases "n < 10")
    case True
    then show ?thesis
      by (subst Number_toString.simps) (simp add: digits_value_def decimal_digit_nth(2))
  next
    case False
    then have "digits_value (Number_toString (n div 10)) = int (n div 10)"
      using 1 by simp
    with False show ?thesis
      by (subst Number_toString.simps)
         (simp add: digits_value_snoc decimal_digit_nth(2) zdiv_int zmod_int)
  qed
qed

lemma take_1_append: "xs \<noteq> [] \<Longrightarrow> take (Suc 0) (xs @ ys) = take (Suc 0) xs"
  by (cases xs) simp_all

lemma Number_toString_leading:
  "0 < n \<Longrightarrow> take 1 (Number_toString n) \<noteq> ''0''"
proof (induction n rule: Number_toString.induct)
  case (1 n)
  show ?case
  proof (cases "n < 10")
    case True
    with 1(2) have d: "''0123456789'' ! n \<noteq> CHR ''0''"
      using decimal_digit_nth(3) by blast
    from True have "Number_toString n = [''0123456789'' ! n]"
      by (subst Number_toString.simps) (simp only: if_True)
    with d show ?thesis by (simp del: nth_Cons_numeral nth_Cons')
  next
    case False
    then have "0 < n div 10" by simp
    with 1(1) False have "take 1 (Number_toString (n div 10)) \<noteq> ''0''" by simp
    with False show ?thesis
      using Number_toString_nonempty [of "n div 10"]
      by (subst Number_toString.simps) (simp add: take_1_append del: take_append)
  qed
qed

lemma Number_toString_length: "1 < length (Number_toString n) \<Longrightarrow> 0 < n"
  by (subst (asm) Number_toString.simps) (simp split: if_splits)

lemma delimited_no_digit:
  assumes "delimited rest"
  shows "takeWhile is_digit rest = []" and "dropWhile is_digit rest = rest"
    and "take 1 rest \<noteq> ''.''" and "take 1 rest \<noteq> ''e''" and "take 1 rest \<noteq> ''E''"
  using assms by (auto simp: delimited_def is_digit_def is_ws_def split: list.splits)

lemma digits_then_rest:
  assumes "list_all is_digit ds" and "delimited rest"
  shows "takeWhile is_digit (ds @ rest) = ds" and "dropWhile is_digit (ds @ rest) = rest"
  using assms delimited_no_digit(1,2) [OF assms(2)]
  by (simp_all add: takeWhile_append2 dropWhile_append2 list_all_iff)

lemma Number_toString_not_minus: "take 1 (Number_toString n @ rest) \<noteq> ''-''"
proof -
  obtain d ds where e: "Number_toString n = d # ds"
    using Number_toString_nonempty [of n] by (cases "Number_toString n") auto
  with Number_toString_digits [of n] have "is_digit d" by simp
  then have "d \<noteq> CHR ''-''" by (auto simp: is_digit_def)
  with e show ?thesis by simp
qed

lemma digits_value_Nil: "digits_value [] = 0"
  by (simp add: digits_value_def)

lemma Number_of_decimal_integer:
  "Number_of_decimal False (int n) 0 = Some (as_parsed (JNum (int n)))"
  "Number_of_decimal True (int n) 0 = Some (as_parsed (JNum (- int n)))"
proof -
  have "0 < overflow_threshold" by (simp add: overflow_threshold_def)
  then show "Number_of_decimal False (int n) 0 = Some (as_parsed (JNum (int n)))"
    and "Number_of_decimal True (int n) 0 = Some (as_parsed (JNum (- int n)))"
    by (auto simp: Number_of_decimal_def)
qed

lemma parse_number_nat:
  assumes "delimited rest"
  shows "parse_number (Number_toString n @ rest) = Some (as_parsed (JNum (int n)), rest)"
proof -
  have l: "1 < length (Number_toString n) \<Longrightarrow> take 1 (Number_toString n) \<noteq> ''0''"
    using Number_toString_leading Number_toString_length by simp
  show ?thesis
    using l Number_toString_not_minus [of n rest] Number_toString_nonempty [of n]
      digits_then_rest [OF Number_toString_digits assms, of n]
      delimited_no_digit(3-5) [OF assms]
    by (simp add: parse_number_def Let_def digits_value_Number_toString digits_value_Nil
        Number_of_decimal_integer(1) del: One_nat_def as_parsed.simps)
qed

lemma parse_number_neg:
  assumes "delimited rest"
  shows "parse_number (CHR ''-'' # Number_toString n @ rest) =
     Some (as_parsed (JNum (- int n)), rest)"
proof -
  have l: "1 < length (Number_toString n) \<Longrightarrow> take 1 (Number_toString n) \<noteq> ''0''"
    using Number_toString_leading Number_toString_length by simp
  have m: "\<not> is_digit CHR ''-''" by (simp add: is_digit_def)
  show ?thesis
    using l m Number_toString_nonempty [of n]
      digits_then_rest [OF Number_toString_digits assms, of n]
      delimited_no_digit(3-5) [OF assms]
    by (simp add: parse_number_def Let_def digits_value_Number_toString digits_value_Nil
        Number_of_decimal_integer(2) del: as_parsed.simps)
qed

lemma parse_number_JNum:
  assumes "delimited rest"
  shows "parse_number (SerializeJSONProperty (JNum i) gap ind @ rest) =
     Some (as_parsed (JNum i), rest)"
proof (cases "i < 0")
  case True
  then show ?thesis
    using parse_number_neg [OF assms, of "nat (- i)"] by (simp del: as_parsed.simps)
next
  case False
  then show ?thesis
    using parse_number_nat [OF assms, of "nat i"] by (simp del: as_parsed.simps)
qed

lemma skip_ws_append:
  "list_all is_ws w \<Longrightarrow> skip_ws (w @ s) = skip_ws s"
  by (simp add: skip_ws_def dropWhile_append list_all_iff)

lemma skip_ws_Cons: "\<not> is_ws c \<Longrightarrow> skip_ws (c # cs) = c # cs"
  by (simp add: skip_ws_def)

lemma parse_value_skip_ws:
  "skip_ws s = skip_ws s' \<Longrightarrow> parse_value n s = parse_value n s'"
  by (cases n) simp_all

lemma parse_value_append_ws:
  "list_all is_ws w \<Longrightarrow> parse_value n (w @ s) = parse_value n s"
  by (rule parse_value_skip_ws) (simp add: skip_ws_append)

lemma delimited_ws_then:
  assumes "list_all is_ws w" and "c = CHR '','' \<or> c = CHR '']'' \<or> c = CHR ''}''"
  shows "delimited (w @ c # rest)"
  using assms by (cases w) (auto simp: delimited_def)

lemma parse_elements_join:
  assumes "list_all is_ws w1" and "list_all is_ws w2"
    and "\<And>x m r. x \<in> set xs \<Longrightarrow> delimited r \<Longrightarrow> 2 * length (f x @ r) \<le> m \<Longrightarrow>
           parse_value m (f x @ r) = Some (g x, r)"
    and "xs \<noteq> []"
    and "2 * length (w1 @ join (CHR '','' # w1) (map f xs) @ w2 @ CHR '']'' # rest) + 1 \<le> n"
  shows "parse_elements n acc (w1 @ join (CHR '','' # w1) (map f xs) @ w2 @ CHR '']'' # rest) =
     Some (JArr (acc @ map g xs), rest)"
  using assms(3-5)
proof (induction xs arbitrary: n acc)
  case Nil
  then show ?case by simp
next
  case (Cons x xs)
  from Cons.prems(3) obtain m where n: "n = Suc m" by (cases n) auto
  show ?case
  proof (cases xs)
    case Nil
    have d: "delimited (w2 @ CHR '']'' # rest)"
      using assms(2) by (rule delimited_ws_then) simp
    have "2 * length (f x @ w2 @ CHR '']'' # rest) \<le> m"
      using Cons.prems(3) n Nil by simp
    with d have "parse_value m (f x @ w2 @ CHR '']'' # rest) = Some (g x, w2 @ CHR '']'' # rest)"
      using Cons.prems(1) by simp
    then have "parse_value m (w1 @ f x @ w2 @ CHR '']'' # rest) = Some (g x, w2 @ CHR '']'' # rest)"
      using assms(1) by (simp add: parse_value_append_ws)
    moreover have "skip_ws (w2 @ CHR '']'' # rest) = CHR '']'' # rest"
      using assms(2) by (simp add: skip_ws_append skip_ws_Cons is_ws_def)
    ultimately show ?thesis using n Nil by simp
  next
    case (Cons y ys)
    let ?R = "w1 @ join (CHR '','' # w1) (map f (y # ys)) @ w2 @ CHR '']'' # rest"
    have d: "delimited (CHR '','' # ?R)" by (simp add: delimited_def)
    have "2 * length (f x @ CHR '','' # ?R) \<le> m"
      using Cons.prems(3) n Cons by simp
    with d have "parse_value m (f x @ CHR '','' # ?R) = Some (g x, CHR '','' # ?R)"
      using Cons.prems(1) by simp
    then have p: "parse_value m (w1 @ f x @ CHR '','' # ?R) = Some (g x, CHR '','' # ?R)"
      using assms(1) by (simp add: parse_value_append_ws)
    have s: "skip_ws (CHR '','' # ?R) = CHR '','' # ?R"
      by (simp add: skip_ws_Cons is_ws_def)
    have "2 * length ?R + 1 \<le> m"
      using Cons.prems(3) n Cons by simp
    then have "parse_elements m (acc @ [g x]) ?R = Some (JArr ((acc @ [g x]) @ map g (y # ys)), rest)"
      using Cons.IH [of m "acc @ [g x]"] Cons.prems(1) Cons by simp
    with p s show ?thesis using n Cons by simp
  qed
qed

lemma parse_chars_QuoteJSONString:
  "parse_chars (drop 1 (QuoteJSONString k @ rest)) = Some (k, rest)"
  by (simp add: QuoteJSONString_def parse_chars_quoted)

lemma skip_ws_QuoteJSONString:
  "list_all is_ws w \<Longrightarrow> skip_ws (w @ QuoteJSONString k @ rest) = QuoteJSONString k @ rest"
  by (simp add: skip_ws_append QuoteJSONString_def skip_ws_Cons is_ws_def)

lemma take_1_QuoteJSONString: "take 1 (QuoteJSONString k @ rest) = [CHR 0x22]"
  by (simp add: QuoteJSONString_def)

lemma parse_members_join:
  assumes "list_all is_ws w1" and "list_all is_ws w2" and "list_all is_ws w3"
    and "\<And>kv m r. kv \<in> set kvs \<Longrightarrow> delimited r \<Longrightarrow> 2 * length (f (snd kv) @ r) \<le> m \<Longrightarrow>
           parse_value m (f (snd kv) @ r) = Some (g (snd kv), r)"
    and "kvs \<noteq> []"
    and "2 * length (w1 @ join (CHR '','' # w1)
            (map (\<lambda>kv. QuoteJSONString (fst kv) @ CHR '':'' # w3 @ f (snd kv)) kvs) @
            w2 @ CHR ''}'' # rest) + 1 \<le> n"
  shows "parse_members n acc (w1 @ join (CHR '','' # w1)
            (map (\<lambda>kv. QuoteJSONString (fst kv) @ CHR '':'' # w3 @ f (snd kv)) kvs) @
            w2 @ CHR ''}'' # rest) =
     Some (JObj (foldl (\<lambda>a kv. CreateDataProperty a (fst kv) (snd kv)) acc
        (map (\<lambda>kv. (fst kv, g (snd kv))) kvs)), rest)"
  using assms(4-6)
proof (induction kvs arbitrary: n acc)
  case Nil
  then show ?case by simp
next
  case (Cons kv kvs)
  from Cons.prems(3) obtain m where n: "n = Suc m" by (cases n) auto
  let ?k = "fst kv" and ?v = "snd kv"
  have colon: "skip_ws (CHR '':'' # t) = CHR '':'' # t" for t
    by (simp add: skip_ws_Cons is_ws_def)
  show ?case
  proof (cases kvs)
    case Nil
    let ?T = "w2 @ CHR ''}'' # rest"
    have d: "delimited ?T"
      using assms(2) by (rule delimited_ws_then) simp
    have "2 * length (f ?v @ ?T) \<le> m"
      using Cons.prems(3) n Nil by simp
    with d have "parse_value m (f ?v @ ?T) = Some (g ?v, ?T)"
      using Cons.prems(1) [of kv] by simp
    then have p: "parse_value m (w3 @ f ?v @ ?T) = Some (g ?v, ?T)"
      using assms(3) by (simp add: parse_value_append_ws)
    have e: "skip_ws ?T = CHR ''}'' # rest"
      using assms(2) by (simp add: skip_ws_append skip_ws_Cons is_ws_def)
    have s: "skip_ws (w1 @ QuoteJSONString ?k @ CHR '':'' # w3 @ f ?v @ ?T) =
        QuoteJSONString ?k @ CHR '':'' # w3 @ f ?v @ ?T"
      using assms(1) by (rule skip_ws_QuoteJSONString)
    show ?thesis
      using n Nil p e s colon
        parse_chars_QuoteJSONString [of ?k "CHR '':'' # w3 @ f ?v @ ?T"]
        take_1_QuoteJSONString [of ?k "CHR '':'' # w3 @ f ?v @ ?T"]
      by simp
  next
    case (Cons kv' kvs')
    let ?R = "w1 @ join (CHR '','' # w1)
        (map (\<lambda>kv. QuoteJSONString (fst kv) @ CHR '':'' # w3 @ f (snd kv)) (kv' # kvs')) @
        w2 @ CHR ''}'' # rest"
    let ?T = "CHR '','' # ?R"
    have d: "delimited ?T" by (simp add: delimited_def)
    have "2 * length (f ?v @ ?T) \<le> m"
      using Cons.prems(3) n Cons by simp
    with d have "parse_value m (f ?v @ ?T) = Some (g ?v, ?T)"
      using Cons.prems(1) [of kv] by simp
    then have p: "parse_value m (w3 @ f ?v @ ?T) = Some (g ?v, ?T)"
      using assms(3) by (simp add: parse_value_append_ws)
    have e: "skip_ws ?T = ?T"
      by (simp add: skip_ws_Cons is_ws_def)
    have s: "skip_ws (w1 @ QuoteJSONString ?k @ CHR '':'' # w3 @ f ?v @ ?T) =
        QuoteJSONString ?k @ CHR '':'' # w3 @ f ?v @ ?T"
      using assms(1) by (rule skip_ws_QuoteJSONString)
    have "2 * length ?R + 1 \<le> m"
      using Cons.prems(3) n Cons by simp
    then have i: "parse_members m (CreateDataProperty acc ?k (g ?v)) ?R =
        Some (JObj (foldl (\<lambda>a kv. CreateDataProperty a (fst kv) (snd kv))
          (CreateDataProperty acc ?k (g ?v)) (map (\<lambda>kv. (fst kv, g (snd kv))) (kv' # kvs'))), rest)"
      using Cons.IH [of m "CreateDataProperty acc ?k (g ?v)"] Cons.prems(1) Cons by simp
    show ?thesis
      using n Cons p e s i colon
        parse_chars_QuoteJSONString [of ?k "CHR '':'' # w3 @ f ?v @ ?T"]
        take_1_QuoteJSONString [of ?k "CHR '':'' # w3 @ f ?v @ ?T"]
      by simp
  qed
qed

lemma number_start:
  "\<exists>c cs. SerializeJSONProperty (JNum i) gap ind = c # cs \<and> (is_digit c \<or> c = CHR ''-'')"
proof -
  obtain d ds where "Number_toString (nat i) = d # ds"
    using Number_toString_nonempty [of "nat i"] by (cases "Number_toString (nat i)") auto
  with Number_toString_digits [of "nat i"] show ?thesis by auto
qed

lemma value_start_Serialize: "value_start (SerializeJSONProperty v gap ind @ rest)"
proof (cases v)
  case (JNum i)
  obtain c cs where "SerializeJSONProperty (JNum i) gap ind = c # cs"
    and "is_digit c \<or> c = CHR ''-''"
    using number_start by blast
  with JNum show ?thesis
    by (auto simp: value_start_def is_digit_def is_ws_def)
qed (auto simp: value_start_def is_ws_def QuoteJSONString_def Let_def)

lemma value_start_skip_ws:
  assumes "value_start s"
  shows "skip_ws s = s" and "take 1 s \<noteq> '']''" and "take 1 s \<noteq> ''}''" and "s \<noteq> []"
  using assms by (auto simp: value_start_def skip_ws_Cons split: list.splits)

lemma value_start_join:
  assumes "xs \<noteq> []" and "\<And>x t. value_start (f x @ t)"
  shows "value_start (join sep (map f xs) @ t)"
proof (cases xs)
  case Nil
  with assms(1) show ?thesis by simp
next
  case (Cons x ys)
  then show ?thesis using assms(2) by (cases ys) simp_all
qed

lemma ws_chars: "is_ws CHR ''\<newline>''" "is_ws CHR '' ''"
  by (simp_all add: is_ws_def)

lemma parse_value_Serialize:
  assumes "list_all is_ws gap"
  shows "list_all is_ws ind \<Longrightarrow> delimited rest \<Longrightarrow>
     2 * length (SerializeJSONProperty v gap ind @ rest) \<le> n \<Longrightarrow>
     parse_value n (SerializeJSONProperty v gap ind @ rest) = Some (as_parsed v, rest)"
proof (induction v arbitrary: n ind rest)
  case JNull
  from JNull(3) obtain m where "n = Suc m" by (cases n) auto
  then show ?case by (simp add: skip_ws_Cons is_ws_def)
next
  case JInfinity
  from JInfinity(3) obtain m where "n = Suc m" by (cases n) auto
  then show ?case by (simp add: skip_ws_Cons is_ws_def)
next
  case JNegInfinity
  from JNegInfinity(3) obtain m where "n = Suc m" by (cases n) auto
  then show ?case by (simp add: skip_ws_Cons is_ws_def)
next
  case (JBool b)
  from JBool(3) obtain m where "n = Suc m" by (cases n) (auto split: if_splits)
  then show ?case by (simp add: skip_ws_Cons is_ws_def)
next
  case (JNum i)
  from JNum(3) obtain m where n: "n = Suc m"
    using value_start_skip_ws(4) [OF value_start_Serialize, of "JNum i" gap ind rest]
    by (cases n) auto
  obtain c cs where t: "SerializeJSONProperty (JNum i) gap ind = c # cs"
    and c: "is_digit c \<or> c = CHR ''-''"
    using number_start by blast
  from c have "\<not> is_ws c" "c \<noteq> CHR ''{''" "c \<noteq> CHR ''[''" "c \<noteq> CHR 0x22"
    "c \<noteq> CHR ''n''" "c \<noteq> CHR ''t''" "c \<noteq> CHR ''f''"
    by (auto simp: is_digit_def is_ws_def)
  moreover have "parse_number (c # cs @ rest) = Some (as_parsed (JNum i), rest)"
    using parse_number_JNum [OF JNum(2), of i gap ind] t
    by (simp del: as_parsed.simps SerializeJSONProperty.simps)
  ultimately show ?case
    using n t by (simp add: skip_ws_Cons del: SerializeJSONProperty.simps as_parsed.simps)
next
  case (JStr s)
  from JStr(3) obtain m where "n = Suc m" by (cases n) (auto simp: QuoteJSONString_def)
  then show ?case
    by (simp add: QuoteJSONString_def skip_ws_Cons is_ws_def parse_chars_quoted)
next
  case (JArr xs)
  from JArr(4) obtain m where n: "n = Suc m" by (cases n) (auto simp: Let_def split: if_splits)
  let ?f = "\<lambda>x. SerializeJSONProperty x gap (ind @ gap)"
  show ?case
  proof (cases "xs = []")
    case True
    with n show ?thesis by (simp add: skip_ws_Cons is_ws_def)
  next
    case False
    define w1 where "w1 = (if gap = [] then [] else CHR ''\<newline>'' # ind @ gap)"
    define w2 where "w2 = (if gap = [] then [] else CHR ''\<newline>'' # ind)"
    let ?cs = "w1 @ join (CHR '','' # w1) (map ?f xs) @ w2 @ CHR '']'' # rest"
    have w: "list_all is_ws w1" "list_all is_ws w2"
      using assms JArr(2) ws_chars by (simp_all add: w1_def w2_def)
    have ser: "SerializeJSONProperty (JArr xs) gap ind @ rest = CHR ''['' # ?cs"
      using False by (simp add: w1_def w2_def)
    have st: "value_start (join (CHR '','' # w1) (map ?f xs) @ w2 @ CHR '']'' # rest)"
      using False value_start_Serialize by (rule value_start_join)
    have sk: "skip_ws ?cs = join (CHR '','' # w1) (map ?f xs) @ w2 @ CHR '']'' # rest"
      using w(1) value_start_skip_ws(1) [OF st] by (simp add: skip_ws_append)
    have ih: "\<And>x k r. x \<in> set xs \<Longrightarrow> delimited r \<Longrightarrow> 2 * length (?f x @ r) \<le> k \<Longrightarrow>
        parse_value k (?f x @ r) = Some (as_parsed x, r)"
      using JArr(1) JArr(2) assms by simp
    have "2 * length ?cs + 1 \<le> m"
      using JArr(4) n unfolding ser by simp
    with w ih False
    have "parse_elements m [] ?cs = Some (JArr ([] @ map as_parsed xs), rest)"
      by (rule parse_elements_join)
    then show ?thesis
      unfolding ser using n sk value_start_skip_ws(2) [OF st]
      by (simp add: skip_ws_Cons is_ws_def)
  qed
next
  case (JObj kvs)
  from JObj(4) obtain m where n: "n = Suc m" by (cases n) (auto simp: Let_def split: if_splits)
  let ?f = "\<lambda>x. SerializeJSONProperty x gap (ind @ gap)"
  show ?case
  proof (cases "kvs = []")
    case True
    with n show ?thesis by (simp add: skip_ws_Cons is_ws_def)
  next
    case False
    define w1 where "w1 = (if gap = [] then [] else CHR ''\<newline>'' # ind @ gap)"
    define w2 where "w2 = (if gap = [] then [] else CHR ''\<newline>'' # ind)"
    define w3 where "w3 = (if gap = [] then [] else '' '')"
    let ?parts = "map (\<lambda>kv. QuoteJSONString (fst kv) @ CHR '':'' # w3 @ ?f (snd kv)) kvs"
    let ?cs = "w1 @ join (CHR '','' # w1) ?parts @ w2 @ CHR ''}'' # rest"
    have w: "list_all is_ws w1" "list_all is_ws w2" "list_all is_ws w3"
      using assms JObj(2) ws_chars by (simp_all add: w1_def w2_def w3_def)
    have ser: "SerializeJSONProperty (JObj kvs) gap ind @ rest = CHR ''{'' # ?cs"
      using False by (simp add: w1_def w2_def w3_def o_def)
    have "value_start (join (CHR '','' # w1)
        (map (\<lambda>kv. QuoteJSONString (fst kv) @ CHR '':'' # w3 @ ?f (snd kv)) kvs) @
        w2 @ CHR ''}'' # rest)"
      using False
      by (rule value_start_join) (simp add: value_start_def QuoteJSONString_def is_ws_def)
    then have st: "value_start (join (CHR '','' # w1) ?parts @ w2 @ CHR ''}'' # rest)" .
    have sk: "skip_ws ?cs = join (CHR '','' # w1) ?parts @ w2 @ CHR ''}'' # rest"
      using w(1) value_start_skip_ws(1) [OF st] by (simp add: skip_ws_append)
    have ih: "\<And>kv k r. kv \<in> set kvs \<Longrightarrow> delimited r \<Longrightarrow> 2 * length (?f (snd kv) @ r) \<le> k \<Longrightarrow>
        parse_value k (?f (snd kv) @ r) = Some (as_parsed (snd kv), r)"
    proof -
      fix kv k r
      assume "kv \<in> set kvs" and "delimited r" and "2 * length (?f (snd kv) @ r) \<le> k"
      moreover have "snd kv \<in> Basic_BNFs.snds kv" by (cases kv) simp
      ultimately show "parse_value k (?f (snd kv) @ r) = Some (as_parsed (snd kv), r)"
        using JObj(1) [of kv "snd kv" "ind @ gap" r k] JObj(2) assms by simp
    qed
    have "2 * length ?cs + 1 \<le> m"
      using JObj(4) n unfolding ser by simp
    with w ih False
    have "parse_members m [] ?cs =
        Some (JObj (foldl (\<lambda>a kv. CreateDataProperty a (fst kv) (snd kv)) []
          (map (\<lambda>kv. (fst kv, as_parsed (snd kv))) kvs)), rest)"
      by (rule parse_members_join)
    moreover have "map (\<lambda>kv. (fst kv, as_parsed (snd kv))) kvs = map (map_prod id as_parsed) kvs"
      by (simp add: map_prod_def case_prod_beta)
    ultimately show ?thesis
      unfolding ser using n sk value_start_skip_ws(3) [OF st]
      by (simp add: skip_ws_Cons is_ws_def)
  qed
qed

lemma JSON_parse_stringify: "JSON_parse (JSON_stringify space v) = Some (as_parsed v)"
proof -
  let ?gap = "replicate (min 10 space) CHR '' ''"
  have "list_all is_ws ?gap" by (simp add: list_all_iff is_ws_def)
  then have "parse_value (2 * length (SerializeJSONProperty v ?gap []) + 2)
      (SerializeJSONProperty v ?gap [] @ []) = Some (as_parsed v, [])"
    by (rule parse_value_Serialize) (simp_all add: delimited_def)
  then show ?thesis by (simp add: JSON_parse_def JSON_stringify_def skip_ws_def)
qed

text \<open>
  What the parser returns is in enumeration order and holds no integer beyond the range
  of the finite numbers, so serialising it and parsing the text gives it back with
  \<^verbatim>\<open>null\<close> in the place of each number that is not finite.
\<close>

lemma enumerated_before_asym: "enumerated_before a b \<Longrightarrow> \<not> enumerated_before b a"
  by (auto simp: enumerated_before_def split: option.splits)

lemma enumerated_before_trans:
  "enumerated_before a b \<Longrightarrow> enumerated_before b c \<Longrightarrow> enumerated_before a c"
  by (auto simp: enumerated_before_def split: option.splits)

lemma enumerated_before_irrefl: "\<not> enumerated_before a a"
  by (auto simp: enumerated_before_def split: option.splits)

lemma CreateDataProperty_append:
  assumes "\<And>p. p \<in> set acc \<Longrightarrow> fst p \<noteq> k \<and> \<not> enumerated_before k (fst p)"
  shows "CreateDataProperty acc k v = acc @ [(k, v)]"
  using assms by (induction acc) auto

lemma CreateDataProperty_set:
  "set (CreateDataProperty acc k v) \<subseteq> insert (k, v) (set acc)"
  by (induction acc) auto

lemma CreateDataProperty_keys:
  "fst ` set (CreateDataProperty acc k v) = insert k (fst ` set acc)"
  by (induction acc) auto

lemma foldl_CreateDataProperty:
  "enumeration_order (acc @ kvs) \<Longrightarrow>
   foldl (\<lambda>a kv. CreateDataProperty a (fst kv) (snd kv)) acc kvs = acc @ kvs"
proof (induction kvs arbitrary: acc)
  case Nil
  then show ?case by simp
next
  case (Cons kv kvs)
  have "CreateDataProperty acc (fst kv) (snd kv) = acc @ [(fst kv, snd kv)]"
    using Cons.prems
    by (intro CreateDataProperty_append) (auto simp: enumeration_order_def sorted_wrt_append)
  moreover have "enumeration_order ((acc @ [kv]) @ kvs)" using Cons.prems by simp
  ultimately show ?case using Cons.IH [of "acc @ [kv]"] by simp
qed

lemma enumeration_order_CreateDataProperty:
  "enumeration_order acc \<Longrightarrow> enumeration_order (CreateDataProperty acc k v)"
proof (induction acc)
  case Nil
  then show ?case by (simp add: enumeration_order_def)
next
  case (Cons p ps)
  from Cons.prems have ps: "enumeration_order ps"
    and p: "\<And>q. q \<in> set ps \<Longrightarrow> fst p \<noteq> fst q \<and> \<not> enumerated_before (fst q) (fst p)"
    by (auto simp: enumeration_order_def)
  consider "fst p = k" | "fst p \<noteq> k" "enumerated_before k (fst p)"
    | "fst p \<noteq> k" "\<not> enumerated_before k (fst p)" by blast
  then show ?case
  proof cases
    case 1
    with Cons.prems show ?thesis by (auto simp: enumeration_order_def)
  next
    case 2
    have "\<And>q. q \<in> set ps \<Longrightarrow> k \<noteq> fst q \<and> \<not> enumerated_before (fst q) k"
      using p 2 enumerated_before_trans by blast
    with 2 Cons.prems show ?thesis
      using enumerated_before_asym by (auto simp: enumeration_order_def)
  next
    case 3
    have "\<And>q. q \<in> set (CreateDataProperty ps k v) \<Longrightarrow>
        fst p \<noteq> fst q \<and> \<not> enumerated_before (fst q) (fst p)"
    proof -
      fix q assume "q \<in> set (CreateDataProperty ps k v)"
      then have "fst q \<in> insert k (fst ` set ps)"
        using CreateDataProperty_keys [of ps k v] by blast
      then consider "fst q = k" | q' where "q' \<in> set ps" "fst q = fst q'" by auto
      then show "fst p \<noteq> fst q \<and> \<not> enumerated_before (fst q) (fst p)"
      proof cases
        case 1
        with 3 show ?thesis by simp
      next
        case 2
        with p [of q'] show ?thesis by simp
      qed
    qed
    with 3 Cons.IH [OF ps] show ?thesis by (simp add: enumeration_order_def)
  qed
qed

lemma as_parsed_JArr_map:
  "(\<And>x. x \<in> set xs \<Longrightarrow> as_parsed x = f x) \<Longrightarrow> as_parsed (JArr xs) = JArr (map f xs)"
  by simp

lemma enumeration_order_values:
  "enumeration_order (map (map_prod id f) kvs) = enumeration_order kvs"
  by (simp add: enumeration_order_def sorted_wrt_map)

lemma as_parsed_JObj_map:
  assumes "enumeration_order kvs" and "\<And>kv. kv \<in> set kvs \<Longrightarrow> as_parsed (snd kv) = f (snd kv)"
  shows "as_parsed (JObj kvs) = JObj (map (map_prod id f) kvs)"
proof -
  have e: "map (map_prod id as_parsed) kvs = map (map_prod id f) kvs"
  proof (rule map_cong [OF refl])
    fix kv assume "kv \<in> set kvs"
    then have "as_parsed (snd kv) = f (snd kv)" by (rule assms(2))
    then show "map_prod id as_parsed kv = map_prod id f kv"
      by (simp add: map_prod_def case_prod_beta)
  qed
  have "enumeration_order ([] @ map (map_prod id f) kvs)"
    using assms(1) by (simp add: enumeration_order_values)
  then have "foldl (\<lambda>a kv. CreateDataProperty a (fst kv) (snd kv)) [] (map (map_prod id f) kvs) =
      [] @ map (map_prod id f) kvs"
    by (rule foldl_CreateDataProperty)
  then show ?thesis
    by (simp only: as_parsed.simps e append_Nil)
qed

lemma digits_value_nonneg: "list_all is_digit ds \<Longrightarrow> 0 \<le> digits_value ds"
proof -
  have "list_all is_digit ds \<Longrightarrow> 0 \<le> a \<Longrightarrow>
      0 \<le> foldl (\<lambda>a c. 10 * a + (of_char c - 48)) (a :: int) ds" for a
  proof (induction ds arbitrary: a)
    case Nil
    then show ?case by simp
  next
    case (Cons d ds)
    from Cons.prems(1) have "48 \<le> (of_char d :: nat)" by (simp add: is_digit_def)
    then have "0 \<le> (of_char d :: int) - 48"
      by (metis diff_ge_0_iff_ge of_nat_le_iff of_nat_numeral of_nat_of_char)
    with Cons.prems have "0 \<le> 10 * a + (of_char d - 48)" by simp
    with Cons.IH [of "10 * a + (of_char d - 48)"] Cons.prems(1) show ?case by simp
  qed
  then show "list_all is_digit ds \<Longrightarrow> 0 \<le> digits_value ds"
    by (simp add: digits_value_def)
qed

lemma int_div_less:
  assumes "0 < (d::int)" and "m < t * d"
  shows "m div d < t"
proof (rule ccontr)
  assume "\<not> m div d < t"
  then have "t \<le> m div d" by simp
  with assms(1) have "t * d \<le> (m div d) * d" by (simp add: mult_right_mono)
  moreover have "m = (m div d) * d + m mod d" by simp
  moreover have "0 \<le> m mod d" using assms(1) by simp
  ultimately have "t * d \<le> m" by linarith
  with assms(2) show False by simp
qed

lemma Number_of_decimal_parsed:
  assumes "Number_of_decimal negative m k = Some v" and "0 \<le> m"
  shows "as_parsed v = infinity_as_null v"
proof -
  have t: "0 < overflow_threshold" by (simp add: overflow_threshold_def)
  show ?thesis
  proof (cases "0 \<le> k")
    case True
    have "0 \<le> m * 10 ^ nat k" using assms(2) by simp
    with True assms(1) t show ?thesis
      by (auto simp: Number_of_decimal_def split: if_splits)
  next
    case False
    let ?d = "(10 :: int) ^ nat (- k)"
    have d: "0 < ?d" by simp
    have "m div ?d < overflow_threshold" if "\<not> overflow_threshold * ?d \<le> m"
    proof -
      from that have "m < overflow_threshold * ?d" by simp
      with d show ?thesis by (rule int_div_less)
    qed
    moreover have "0 \<le> m div ?d" using assms(2) d by (simp add: pos_imp_zdiv_nonneg_iff)
    ultimately show ?thesis
      using assms(1) False t
      by (auto simp: Number_of_decimal_def split: if_splits)
  qed
qed

lemma if_None_eq_Some: "(if c then None else x) = Some y \<Longrightarrow> x = Some y"
  by (simp split: if_splits)

lemma map_option_pair_Some: "map_option (\<lambda>v. (v, rest)) x = Some (v', r) \<Longrightarrow> x = Some v'"
  by (cases x) simp_all

lemma parse_number_parsed:
  assumes "parse_number s = Some (v, r)"
  shows "as_parsed v = infinity_as_null v"
proof -
  have tw: "list_all is_digit (takeWhile is_digit xs)" for xs
    by (induction xs) simp_all
  have fw: "list_all is_digit (if c then takeWhile is_digit xs else [])" for c xs
    using tw by simp
  note a = if_None_eq_Some [OF assms [unfolded parse_number_def Let_def]]
  note b = map_option_pair_Some [OF a]
  from b show ?thesis
  proof (rule Number_of_decimal_parsed)
    show "0 \<le> digits_value
       (takeWhile is_digit (if take 1 s = ''-'' then drop 1 s else s) @
        (if take 1 (dropWhile is_digit (if take 1 s = ''-'' then drop 1 s else s)) = ''.''
         then takeWhile is_digit
                (drop 1 (dropWhile is_digit (if take 1 s = ''-'' then drop 1 s else s)))
         else []))"
      by (rule digits_value_nonneg) (simp only: list_all_append tw fw simp_thms)
  qed
qed

lemma CreateDataProperty_parsed:
  assumes "\<And>kv. kv \<in> set acc \<Longrightarrow> as_parsed (snd kv) = infinity_as_null (snd kv)"
    and "as_parsed v = infinity_as_null v"
    and "kv \<in> set (CreateDataProperty acc k v)"
  shows "as_parsed (snd kv) = infinity_as_null (snd kv)"
proof -
  from assms(3) CreateDataProperty_set [of acc k v] have "kv = (k, v) \<or> kv \<in> set acc"
    by blast
  then show ?thesis
  proof
    assume "kv = (k, v)"
    with assms(2) show ?thesis by simp
  next
    assume "kv \<in> set acc"
    then show ?thesis by (rule assms(1))
  qed
qed

lemma parsed_in_order:
  "parse_value n s = Some (v, r) \<Longrightarrow> as_parsed v = infinity_as_null v"
  "parse_elements n xs s = Some (v, r) \<Longrightarrow>
     (\<And>x. x \<in> set xs \<Longrightarrow> as_parsed x = infinity_as_null x) \<Longrightarrow>
     as_parsed v = infinity_as_null v"
  "parse_members n acc s = Some (v, r) \<Longrightarrow> enumeration_order acc \<Longrightarrow>
     (\<And>kv. kv \<in> set acc \<Longrightarrow> as_parsed (snd kv) = infinity_as_null (snd kv)) \<Longrightarrow>
     as_parsed v = infinity_as_null v"
proof (induction n s and n xs s and n acc s arbitrary: v r and v r and v r
    rule: parse_value_parse_elements_parse_members.induct)
  case (1 s)
  then show ?case by simp
next
  case (2 n s)
  then show ?case
    by (auto simp: enumeration_order_def parse_number_parsed split: list.splits if_splits)
next
  case (3 acc s)
  then show ?case by simp
next
  case (4 n acc s)
  from 4(3) obtain x r1 where x: "parse_value n s = Some (x, r1)"
    by (auto split: option.splits)
  then have px: "as_parsed x = infinity_as_null x" using 4(1) by simp
  have all: "\<And>y. y \<in> set (acc @ [x]) \<Longrightarrow> as_parsed y = infinity_as_null y"
    using 4(4) px by auto
  show ?case
  proof (cases "take 1 (skip_ws r1) = '',''")
    case True
    with 4(3) x have "parse_elements n (acc @ [x]) (drop 1 (skip_ws r1)) = Some (v, r)" by simp
    with 4(2) [OF x refl True] all show ?thesis by blast
  next
    case False
    with 4(3) x have "v = JArr (acc @ [x])" by (auto split: if_splits)
    with as_parsed_JArr_map [of "acc @ [x]" infinity_as_null, OF all] show ?thesis
      by (simp only: infinity_as_null.simps)
  qed
next
  case (5 acc s)
  then show ?case by simp
next
  case (6 n acc s)
  from 6(3) have q: "take 1 (skip_ws s) = [CHR 0x22]" by (auto split: if_splits)
  with 6(3) obtain k r1 where k: "parse_chars (drop 1 (skip_ws s)) = Some (k, r1)"
    by (auto split: option.splits)
  with 6(3) q have c: "take 1 (skip_ws r1) = '':''" by (auto split: if_splits)
  with 6(3) q k obtain x r3 where x: "parse_value n (drop 1 (skip_ws r1)) = Some (x, r3)"
    by (auto split: option.splits)
  have px: "as_parsed x = infinity_as_null x" using 6(1) [OF q k refl c x] .
  let ?acc = "CreateDataProperty acc k x"
  have ord: "enumeration_order ?acc"
    using 6(4) by (rule enumeration_order_CreateDataProperty)
  have all: "\<And>kv. kv \<in> set ?acc \<Longrightarrow> as_parsed (snd kv) = infinity_as_null (snd kv)"
    using CreateDataProperty_parsed [OF 6(5) px] by blast
  show ?case
  proof (cases "take 1 (skip_ws r3) = '',''")
    case True
    with 6(3) q k c x have "parse_members n ?acc (drop 1 (skip_ws r3)) = Some (v, r)" by simp
    with 6(2) [OF q k refl c x refl True] ord all show ?thesis by blast
  next
    case False
    with 6(3) q k c x have "v = JObj ?acc" by (auto split: if_splits)
    with as_parsed_JObj_map [of ?acc infinity_as_null, OF ord all] show ?thesis
      by (simp only: infinity_as_null.simps)
  qed
qed

lemma JSON_parse_in_order:
  assumes "JSON_parse s = Some v"
  shows "as_parsed v = infinity_as_null v"
proof -
  from assms obtain r where "parse_value (2 * length s + 2) s = Some (v, r)"
    unfolding JSON_parse_def by (auto split: option.splits if_splits)
  then show ?thesis by (rule parsed_in_order(1))
qed

lemma JSON_stringify_parsed:
  "JSON_parse s = Some v \<Longrightarrow> JSON_parse (JSON_stringify space v) = Some (infinity_as_null v)"
  using JSON_parse_stringify [of space v] JSON_parse_in_order [of s v] by simp

section \<open>The reference runtime on the examples\<close>



lemma parse_internal_body:
  "JSON_parse (JSON_stringify 0 (JObj [(''message'', JStr ''internal'')])) =
     Some (JObj [(''message'', JStr ''internal'')])"
  by code_simp

lemma parse_html_error: "JSON_parse ''<html>Error</html>'' = None"
  by code_simp

lemma parse_html_bad_gateway: "JSON_parse ''<html>Bad Gateway</html>'' = None"
  by code_simp

lemma parse_empty: "JSON_parse [] = None"
  by code_simp



text \<open>
  The body of the request, read by the reference parser: an object with the property
  \<^verbatim>\<open>query\<close> alone when no variables are given.
\<close>

lemma variables_not_index: "array_index ''variables'' = None"
  by code_simp

lemma parse_request_body:
  "JSON_parse (body (outbound_request JSON_stringify query None)) =
     Some (JObj [(''query'', JStr query)])"
  "JSON_parse (body (outbound_request JSON_stringify query (Some vs))) =
     Some (JObj [(''query'', JStr query), (''variables'', as_parsed (JObj vs))])"
  by (simp_all add: outbound_request_def JSON_parse_stringify enumerated_before_def
      variables_not_index)

text \<open>
  On a \<^verbatim>\<open>Response\<close> of the Fetch standard whose body is not JSON, the relay reaches the
  Non-JSON envelope for the null body only; for every other body the second read
  throws and the envelope is the one of the \<^verbatim>\<open>catch\<close> clause.
\<close>

lemma execute_Fetch_Response_non_json:
  assumes "net (length sent) (outbound_request stringify query variables) =
      Inr (Fetch_Response st (Some b))"
    and "JSON_parse b = None"
  shows "fst (executeOpenNeuroGraphQLQuery stringify net sent query variables) =
     Inr (JObj [(''errors'', JArr [JObj
        [(''message'', JStr ''Body has already been used''),
         (''extensions'', JObj [(''clientError'', JBool True)])]])])"
  using assms
  by (simp add: executeOpenNeuroGraphQLQuery_def relay_try_def outbound_fetch_def
      Fetch_Response_def)

lemma execute_Fetch_Response_null_body:
  assumes "net (length sent) (outbound_request stringify query variables) =
      Inr (Fetch_Response st None)"
  shows "fst (executeOpenNeuroGraphQLQuery stringify net sent query variables) =
     Inr (JObj [(''errors'', JArr [JObj
        [(''message'', JStr (''OpenNeuro API Error '' @ Number_toString st @
            '': Non-JSON response.'')),
         (''extensions'', JObj
            [(''statusCode'', JNum (int st)), (''responseText'', JStr [])])]])])"
  using assms
  by (simp add: executeOpenNeuroGraphQLQuery_def relay_try_def outbound_fetch_def
      Fetch_Response_def parse_empty)

section \<open>The claims\<close>

text \<open>
  C1. Every invocation of the relay returns a JSON value and throws nothing to its
  caller, for every query, every optional variables object and every outcome of the
  outbound call, a rejected \<^verbatim>\<open>fetch\<close> included. The value is the parsed body of the
  response or an object with an \<^verbatim>\<open>errors\<close> array, and the callback of the tool, which
  awaits the relay, returns its text block and throws nothing either.
\<close>

theorem relay_never_throws:
  "\<exists>result.
     executeOpenNeuroGraphQLQuery stringify net sent query variables =
       (Inr result, sent @ [outbound_request stringify query variables]) \<and>
     tool_callback stringify net sent query variables =
       (Inr \<lparr>content = [\<lparr>content_type = ''text'', content_text = stringify 2 result\<rparr>]\<rparr>,
        sent @ [outbound_request stringify query variables]) \<and>
     ((\<exists>r. net (length sent) (outbound_request stringify query variables) = Inr r \<and>
           json_outcome r = Inr result) \<or>
      (\<exists>message extensions. result = JObj [(''errors'', JArr [JObj
          [(''message'', JStr message), (''extensions'', JObj extensions)]])]))"
proof -
  obtain result where r:
    "executeOpenNeuroGraphQLQuery stringify net sent query variables =
       (Inr result, sent @ [outbound_request stringify query variables])"
    using execute_returns by blast
  have t: "tool_callback stringify net sent query variables =
       (Inr \<lparr>content = [\<lparr>content_type = ''text'', content_text = stringify 2 result\<rparr>]\<rparr>,
        sent @ [outbound_request stringify query variables])"
    using r by (simp add: tool_callback_def)
  have s: "(\<exists>r. net (length sent) (outbound_request stringify query variables) = Inr r \<and>
           json_outcome r = Inr result) \<or>
      (\<exists>message extensions. result = JObj [(''errors'', JArr [JObj
          [(''message'', JStr message), (''extensions'', JObj extensions)]])])"
    using r
    by (auto simp: executeOpenNeuroGraphQLQuery_def relay_try_def outbound_fetch_def
        split: sum.splits if_splits)
  from r t s show ?thesis by blast
qed

text \<open>
  C2. An invocation sends exactly one request: the log of requests grows by one
  \<^verbatim>\<open>POST\<close> to \<^verbatim>\<open>https://openneuro.org/crn/graphql\<close> whose body is the serialisation of an
  object with the one property \<^verbatim>\<open>query\<close> when no variables are given (no \<^verbatim>\<open>variables\<close>
  property, not even \<^verbatim>\<open>null\<close>), and with \<^verbatim>\<open>query\<close> and \<^verbatim>\<open>variables\<close> when they are. This
  holds for every query string, the non-empty ones in particular. Nothing is cached
  or reused: the value returned is the one computed from the outcome of this
  invocation's own call, whatever was sent before. With the reference runtime, the
  body parses as the object \<^verbatim>\<open>{ query }\<close>, or \<^verbatim>\<open>{ query, variables }\<close> with the
  variables as a parser returns them.
\<close>

theorem relay_one_post:
  "snd (executeOpenNeuroGraphQLQuery stringify net sent query None) = sent @
     [\<lparr>url = ''https://openneuro.org/crn/graphql'', http_method = ''POST'',
       headers = [(''Content-Type'', ''application/json''),
                  (''User-Agent'',
                   ''MCPOpenNeuroServer/0.1.0 (ModelContextProtocol; +https://modelcontextprotocol.io)'')],
       body = stringify 0 (JObj [(''query'', JStr query)])\<rparr>] \<and>
   snd (executeOpenNeuroGraphQLQuery stringify net sent query (Some vs)) = sent @
     [\<lparr>url = ''https://openneuro.org/crn/graphql'', http_method = ''POST'',
       headers = [(''Content-Type'', ''application/json''),
                  (''User-Agent'',
                   ''MCPOpenNeuroServer/0.1.0 (ModelContextProtocol; +https://modelcontextprotocol.io)'')],
       body = stringify 0 (JObj [(''query'', JStr query), (''variables'', JObj vs)])\<rparr>] \<and>
   fst (executeOpenNeuroGraphQLQuery stringify net sent query variables) =
     fst (executeOpenNeuroGraphQLQuery stringify (always (net (length sent)
        (outbound_request stringify query variables))) [] query variables) \<and>
   map (\<lambda>req. JSON_parse (body req))
       (snd (executeOpenNeuroGraphQLQuery JSON_stringify net [] query None)) =
     [Some (JObj [(''query'', JStr query)])] \<and>
   map (\<lambda>req. JSON_parse (body req))
       (snd (executeOpenNeuroGraphQLQuery JSON_stringify net [] query (Some vs))) =
     [Some (JObj [(''query'', JStr query), (''variables'', as_parsed (JObj vs))])]"
proof -
  have a: "snd (executeOpenNeuroGraphQLQuery stringify net sent query None) = sent @
     [\<lparr>url = ''https://openneuro.org/crn/graphql'', http_method = ''POST'',
       headers = [(''Content-Type'', ''application/json''),
                  (''User-Agent'',
                   ''MCPOpenNeuroServer/0.1.0 (ModelContextProtocol; +https://modelcontextprotocol.io)'')],
       body = stringify 0 (JObj [(''query'', JStr query)])\<rparr>]"
    by (simp add: execute_sent outbound_request_def OPENNEURO_GRAPHQL_ENDPOINT_def)
  have b: "snd (executeOpenNeuroGraphQLQuery stringify net sent query (Some vs)) = sent @
     [\<lparr>url = ''https://openneuro.org/crn/graphql'', http_method = ''POST'',
       headers = [(''Content-Type'', ''application/json''),
                  (''User-Agent'',
                   ''MCPOpenNeuroServer/0.1.0 (ModelContextProtocol; +https://modelcontextprotocol.io)'')],
       body = stringify 0 (JObj [(''query'', JStr query), (''variables'', JObj vs)])\<rparr>]"
    by (simp add: execute_sent outbound_request_def OPENNEURO_GRAPHQL_ENDPOINT_def)
  have c: "fst (executeOpenNeuroGraphQLQuery stringify net sent query variables) =
     fst (executeOpenNeuroGraphQLQuery stringify (always (net (length sent)
        (outbound_request stringify query variables))) [] query variables)"
    by (simp add: executeOpenNeuroGraphQLQuery_def relay_try_def outbound_fetch_def always_def
        split: sum.splits)
  have d: "map (\<lambda>req. JSON_parse (body req))
       (snd (executeOpenNeuroGraphQLQuery JSON_stringify net [] query None)) =
     [Some (JObj [(''query'', JStr query)])]"
    by (simp add: execute_sent parse_request_body(1))
  have e: "map (\<lambda>req. JSON_parse (body req))
       (snd (executeOpenNeuroGraphQLQuery JSON_stringify net [] query (Some vs))) =
     [Some (JObj [(''query'', JStr query), (''variables'', as_parsed (JObj vs))])]"
    by (simp add: execute_sent parse_request_body(2) del: as_parsed.simps)
  from a b c d e show ?thesis by blast
qed




text \<open>
  C4. When the outbound call yields a status outside the range 200 to 299 and a body
  that parses as JSON, the relay returns the envelope whose message is
  \<^verbatim>\<open>OpenNeuro API HTTP Error\<close> followed by the status, and whose extensions hold the
  status code and the whole parsed body.
\<close>

theorem relay_http_error:
  assumes "net (length sent) (outbound_request stringify query variables) = Inr r"
    and "\<not> (200 \<le> status r \<and> status r \<le> 299)"
    and "json_outcome r = Inr responseBody"
  shows "fst (executeOpenNeuroGraphQLQuery stringify net sent query variables) =
     Inr (JObj [(''errors'', JArr [JObj
        [(''message'', JStr (''OpenNeuro API HTTP Error '' @ Number_toString (status r))),
         (''extensions'', JObj
            [(''statusCode'', JNum (int (status r))), (''responseBody'', responseBody)])]])])"
proof -
  from assms(2) have "\<not> ok r" by (simp add: ok_def)
  with assms(1,3) show ?thesis by (rule execute_http_error)
qed

text \<open>The example of the specification: status 500 and the body \<^verbatim>\<open>{"message":"internal"}\<close>.\<close>

theorem relay_http_error_witness:
  "fst (executeOpenNeuroGraphQLQuery JSON_stringify
      (always (Inr (Fetch_Response 500 (Some (JSON_stringify 0
         (JObj [(''message'', JStr ''internal'')]))))))
      [] ''{ a }'' None) =
     Inr (JObj [(''errors'', JArr [JObj
        [(''message'', JStr ''OpenNeuro API HTTP Error 500''),
         (''extensions'', JObj
            [(''statusCode'', JNum 500),
             (''responseBody'', JObj [(''message'', JStr ''internal'')])])]])])"
  using relay_http_error [of
      "always (Inr (Fetch_Response 500 (Some (JSON_stringify 0
         (JObj [(''message'', JStr ''internal'')])))))"
      "[]" JSON_stringify "''{ a }''" None
      "Fetch_Response 500 (Some (JSON_stringify 0 (JObj [(''message'', JStr ''internal'')])))"
      "JObj [(''message'', JStr ''internal'')]"]
  by (simp add: always_def Fetch_Response_def parse_internal_body Number_toString.simps)

text \<open>
  C5. The claim is that a response whose body does not parse as JSON gives the
  envelope \<^verbatim>\<open>OpenNeuro API Error <status>: Non-JSON response.\<close> with the first 1000
  characters of the raw body. The relay builds that envelope only when
  \<^verbatim>\<open>response.text()\<close> still succeeds after \<^verbatim>\<open>response.json()\<close> has rejected
  (\<open>execute_non_json\<close> above). A \<^verbatim>\<open>Response\<close> of the Fetch standard gives its body once:
  \<^verbatim>\<open>json()\<close> has read it, the second read rejects with a \<^verbatim>\<open>TypeError\<close>, and the relay
  returns the envelope of a client-side error instead
  (\<open>execute_Fetch_Response_non_json\<close>). The theorem evaluates the relay at such a
  response, status 200 with the body \<^verbatim>\<open><html>Error</html>\<close>.
\<close>

theorem relay_non_json_body_consumed:
  "fst (executeOpenNeuroGraphQLQuery JSON_stringify
      (always (Inr (Fetch_Response 200 (Some ''<html>Error</html>'')))) [] ''{ a }'' None) =
     Inr (JObj [(''errors'', JArr [JObj
        [(''message'', JStr ''Body has already been used''),
         (''extensions'', JObj [(''clientError'', JBool True)])]])])"
  by (simp add: executeOpenNeuroGraphQLQuery_def relay_try_def outbound_fetch_def always_def
      Fetch_Response_def parse_html_error)

text \<open>
  C6. When the outbound call itself throws, the relay returns the envelope whose message
  is the text of the value thrown, \<^verbatim>\<open>error.message\<close> for an instance of \<^verbatim>\<open>Error\<close> and
  \<^verbatim>\<open>String(error)\<close> for any other value, with \<^verbatim>\<open>clientError: true\<close>; the tool's output is
  the text block with the serialisation of that envelope, and nothing is thrown to the
  caller. A network failure, a DNS failure or a timeout rejects with a value that
  carries a description, so the text is not empty, and neither is the message.
\<close>

theorem relay_transport_failure:
  assumes "net (length sent) (outbound_request stringify query variables) = Inl error"
    and "(case error of Error_instance message \<Rightarrow> message | Non_error s \<Rightarrow> s) \<noteq> []"
  shows "\<exists>message. message \<noteq> [] \<and>
     message = (case error of Error_instance message \<Rightarrow> message | Non_error s \<Rightarrow> s) \<and>
     fst (executeOpenNeuroGraphQLQuery stringify net sent query variables) =
       Inr (JObj [(''errors'', JArr [JObj
          [(''message'', JStr message),
           (''extensions'', JObj [(''clientError'', JBool True)])]])]) \<and>
     fst (tool_callback stringify net sent query variables) =
       Inr \<lparr>content = [\<lparr>content_type = ''text'', content_text = stringify 2
         (JObj [(''errors'', JArr [JObj
          [(''message'', JStr message),
           (''extensions'', JObj [(''clientError'', JBool True)])]])])\<rparr>]\<rparr>"
proof -
  have m: "errorMessage error = (case error of Error_instance message \<Rightarrow> message | Non_error s \<Rightarrow> s)"
    by (cases error) simp_all
  from assms(1)
  have e: "fst (executeOpenNeuroGraphQLQuery stringify net sent query variables) =
     Inr (JObj [(''errors'', JArr [JObj
        [(''message'', JStr (errorMessage error)),
         (''extensions'', JObj [(''clientError'', JBool True)])]])])"
    by (rule execute_rejected)
  from e tool_callback_text [OF e] assms(2) show ?thesis by (simp add: m)
qed

text \<open>A refused connection.\<close>

theorem relay_transport_failure_witness:
  "fst (executeOpenNeuroGraphQLQuery JSON_stringify
      (always (Inl (Error_instance ''connect ECONNREFUSED 127.0.0.1:443''))) [] ''{ a }'' None) =
     Inr (JObj [(''errors'', JArr [JObj
        [(''message'', JStr ''connect ECONNREFUSED 127.0.0.1:443''),
         (''extensions'', JObj [(''clientError'', JBool True)])]])]) \<and>
   fst (tool_callback JSON_stringify
      (always (Inl (Error_instance ''connect ECONNREFUSED 127.0.0.1:443''))) [] ''{ a }'' None) =
     Inr \<lparr>content = [\<lparr>content_type = ''text'', content_text = JSON_stringify 2
       (JObj [(''errors'', JArr [JObj
        [(''message'', JStr ''connect ECONNREFUSED 127.0.0.1:443''),
         (''extensions'', JObj [(''clientError'', JBool True)])]])])\<rparr>]\<rparr>"
  using relay_transport_failure [of
      "always (Inl (Error_instance ''connect ECONNREFUSED 127.0.0.1:443''))" "[]"
      JSON_stringify "''{ a }''" None "Error_instance ''connect ECONNREFUSED 127.0.0.1:443''"]
  by (simp add: always_def)

text \<open>
  C7. The claim names the operation \<^verbatim>\<open>graphql_query\<close>. \<^verbatim>\<open>init\<close> registers it under
  another name.
\<close>

theorem tool_name_not_graphql_query:
  "map tool_name (init []) \<noteq> [''graphql_query'']"
  by (simp add: init_def)

text \<open>
  C7, as amended. \<^verbatim>\<open>init\<close> registers a single tool, named \<^verbatim>\<open>openneuro_graphql_query\<close>,
  and the output of its callback is a single content block of type \<^verbatim>\<open>text\<close> whose text
  is the serialisation, with indentation 2, of the value the relay returned.
\<close>

theorem tool_surface:
  "map tool_name (init []) = [''openneuro_graphql_query''] \<and>
   (\<exists>result.
      fst (executeOpenNeuroGraphQLQuery stringify net sent query variables) = Inr result \<and>
      map (\<lambda>t. fst (callback t stringify net sent query variables)) (init []) =
        [Inr \<lparr>content = [\<lparr>content_type = ''text'', content_text = stringify 2 result\<rparr>]\<rparr>])"
proof -
  obtain result where r:
    "fst (executeOpenNeuroGraphQLQuery stringify net sent query variables) = Inr result"
    using execute_returns [of stringify net sent query variables] by auto
  from r tool_callback_text [OF r] show ?thesis by (simp add: init_def)
qed

text \<open>
  C8. For a path that is not \<^verbatim>\<open>/sse\<close> and does not start with \<^verbatim>\<open>/sse/\<close>, the handler
  answers with status 404, the header \<^verbatim>\<open>Content-Type: text/plain\<close> and a body in which
  \<^verbatim>\<open>/sse\<close> occurs; the path \<^verbatim>\<open>/sse\<close> and every path under it go to the SSE transport.
\<close>

theorem fetch_routing:
  "(pathname \<noteq> ''/sse'' \<and> \<not> prefix ''/sse/'' pathname \<longrightarrow>
      (\<exists>b. fetch pathname = Responded \<lparr>response_body = b, response_status = 404,
              response_headers = [(''Content-Type'', ''text/plain'')]\<rparr> \<and>
           sublist ''/sse'' b)) \<and>
   (pathname = ''/sse'' \<or> prefix ''/sse/'' pathname \<longrightarrow>
      fetch pathname = Served_by_SSE ''/sse'')"
proof -
  have "sublist ''/sse''
     (''OpenNeuro MCP Server - Path not found.\<newline>Available MCP paths:\<newline>- '' @ ''/sse'' @
      '' (for Server-Sent Events transport)'')"
    by (rule sublist_appendI)
  then show ?thesis by (simp add: fetch_def)
qed

text \<open>Two paths that are not found, \<^verbatim>\<open>/ssefoo\<close> among them, and two that are served.\<close>

theorem fetch_routing_witness:
  "fetch ''/'' = Responded
     \<lparr>response_body = ''OpenNeuro MCP Server - Path not found.\<newline>Available MCP paths:\<newline>- /sse (for Server-Sent Events transport)'',
      response_status = 404, response_headers = [(''Content-Type'', ''text/plain'')]\<rparr> \<and>
   fetch ''/ssefoo'' = Responded
     \<lparr>response_body = ''OpenNeuro MCP Server - Path not found.\<newline>Available MCP paths:\<newline>- /sse (for Server-Sent Events transport)'',
      response_status = 404, response_headers = [(''Content-Type'', ''text/plain'')]\<rparr> \<and>
   fetch ''/sse'' = Served_by_SSE ''/sse'' \<and>
   fetch ''/sse/message'' = Served_by_SSE ''/sse''"
  using fetch_routing [of "''/''"] fetch_routing [of "''/ssefoo''"]
    fetch_routing [of "''/sse''"] fetch_routing [of "''/sse/message''"]
  by (simp add: fetch_def)

text \<open>
  C9. The claim is that the input schema admits only non-empty strings for \<^verbatim>\<open>query\<close>.
  The schema is \<^verbatim>\<open>z.string()\<close> with no bound on the length, and it accepts the
  arguments \<^verbatim>\<open>{ "query": "" }\<close>.
\<close>

theorem schema_admits_empty_query:
  "schema_accepts (input_schema (hd (init []))) [(''query'', JStr '''')]"
  by (simp add: init_def schema_accepts_def)

text \<open>
  C9, as amended. \<^verbatim>\<open>query\<close> is required and must be a string, of any length;
  \<^verbatim>\<open>variables\<close> is missing or an object. The callback called with the empty query sends
  the request like any other.
\<close>

theorem query_schema:
  "length (init []) = 1 \<and>
   schema_accepts (input_schema (hd (init []))) args =
     ((\<exists>query. map_of args ''query'' = Some (JStr query)) \<and>
      (map_of args ''variables'' = None \<or>
       (\<exists>vs. map_of args ''variables'' = Some (JObj vs)))) \<and>
   snd (tool_callback stringify net sent '''' None) = sent @
     [\<lparr>url = ''https://openneuro.org/crn/graphql'', http_method = ''POST'',
       headers = [(''Content-Type'', ''application/json''),
                  (''User-Agent'',
                   ''MCPOpenNeuroServer/0.1.0 (ModelContextProtocol; +https://modelcontextprotocol.io)'')],
       body = stringify 0 (JObj [(''query'', JStr '''')])\<rparr>]"
proof -
  have q: "zod_accepts ZString v = (\<exists>query. v = Some (JStr query))" for v
    by (cases "(ZString, v)" rule: zod_accepts.cases) auto
  have a: "list_all (\<lambda>kv. True) kvs" for kvs :: "(string \<times> json) list"
    by (induction kvs) simp_all
  have v: "zod_accepts (ZOptional (ZRecord ZAny)) v = (v = None \<or> (\<exists>vs. v = Some (JObj vs)))" for v
    by (cases "(ZOptional (ZRecord ZAny), v)" rule: zod_accepts.cases)
       (auto simp: a elim: zod_accepts.elims)
  show ?thesis
    by (simp add: init_def schema_accepts_def q v tool_callback_sent outbound_request_def
        OPENNEURO_GRAPHQL_ENDPOINT_def)
qed

text \<open>
  C10. In the branch of a body that does not parse, the raw text is read after
  \<^verbatim>\<open>response.json()\<close> has read the body. When that second read throws, the invocation
  still returns a value: the envelope of a client-side error, with the message of the
  value the second read threw and \<^verbatim>\<open>clientError: true\<close>, not the Non-JSON envelope, and
  nothing is thrown to the caller.
\<close>

theorem relay_second_read_throws:
  assumes "net (length sent) (outbound_request stringify query variables) = Inr r"
    and "json_outcome r = Inl e"
    and "text_outcome r = Inl error"
  shows "fst (executeOpenNeuroGraphQLQuery stringify net sent query variables) =
     Inr (JObj [(''errors'', JArr [JObj
        [(''message'', JStr (case error of Error_instance message \<Rightarrow> message | Non_error s \<Rightarrow> s)),
         (''extensions'', JObj [(''clientError'', JBool True)])]])]) \<and>
   (\<exists>result. tool_callback stringify net sent query variables =
      (Inr result, sent @ [outbound_request stringify query variables]))"
proof -
  have m: "errorMessage error = (case error of Error_instance message \<Rightarrow> message | Non_error s \<Rightarrow> s)"
    by (cases error) simp_all
  from assms
  have e: "fst (executeOpenNeuroGraphQLQuery stringify net sent query variables) =
     Inr (JObj [(''errors'', JArr [JObj
        [(''message'', JStr (errorMessage error)),
         (''extensions'', JObj [(''clientError'', JBool True)])]])])"
    by (rule execute_second_read_throws)
  have "\<exists>result. fst (tool_callback stringify net sent query variables) = Inr result"
    using tool_callback_text [OF e] by simp
  then have "\<exists>result. tool_callback stringify net sent query variables =
      (Inr result, sent @ [outbound_request stringify query variables])"
    using tool_callback_sent [of stringify net sent query variables]
    by (cases "tool_callback stringify net sent query variables") auto
  with e show ?thesis by (simp add: m)
qed

text \<open>A 502 with an HTML body, from a runtime whose \<^verbatim>\<open>Response\<close> gives its body once.\<close>

theorem relay_second_read_throws_witness:
  "fst (executeOpenNeuroGraphQLQuery JSON_stringify
      (always (Inr (Fetch_Response 502 (Some ''<html>Bad Gateway</html>'')))) [] ''{ a }'' None) =
     Inr (JObj [(''errors'', JArr [JObj
        [(''message'', JStr ''Body has already been used''),
         (''extensions'', JObj [(''clientError'', JBool True)])]])]) \<and>
   (\<exists>result. tool_callback JSON_stringify
      (always (Inr (Fetch_Response 502 (Some ''<html>Bad Gateway</html>'')))) [] ''{ a }'' None =
      (Inr result, [outbound_request JSON_stringify ''{ a }'' None]))"
  using relay_second_read_throws [of
      "always (Inr (Fetch_Response 502 (Some ''<html>Bad Gateway</html>'')))"
      "[]" JSON_stringify "''{ a }''" None
      "Fetch_Response 502 (Some ''<html>Bad Gateway</html>'')"
      "Error_instance ''Unexpected token in JSON''"
      "Error_instance ''Body has already been used''"]
  by (simp add: always_def Fetch_Response_def parse_html_bad_gateway)

end
